theory Spec2Isabelle
  imports Main
begin

section \<open>JSON values and the Python operations on them\<close>

text \<open>
  The authentication payload, the service catalog and the request bodies are Python
  objects decoded from JSON. A dictionary is an association list read with
  \<open>map_of\<close>. Numbers are integers: the source never computes with one.
\<close>

datatype json =
    JNull
  | JBool bool
  | JNum int
  | JStr string
  | JList "json list"
  | JObj "(string \<times> json) list"

text \<open>
  What can be raised. \<open>Unauthorized\<close> is keystone's structured error
  (\<open>keystone.exception.Unauthorized\<close>), with the message it is built from; the
  others are the raw Python exceptions of the operations the source performs.
  \<open>HostError\<close> is whatever the host's token or federation code raises.
\<close>

datatype reason =
    MissingName
  | MissingPassword
  | CatalogParse string
  | AuthFailed string

datatype exc =
    Unauthorized reason
  | KeyError string
  | TypeError
  | AttributeError
  | HTTPError int
  | ConnectionError
  | JSONDecodeError
  | ParserError
  | HostError string

text \<open>\<open>obj[key]\<close> with a string key: only a dictionary can be read this way.\<close>

fun getitem :: "json \<Rightarrow> string \<Rightarrow> exc + json" where
  "getitem (JObj kvs) k = (case map_of kvs k of None \<Rightarrow> Inl (KeyError k) | Some v \<Rightarrow> Inr v)"
| "getitem _ k = Inl TypeError"

definition getitem2 :: "json \<Rightarrow> string \<Rightarrow> string \<Rightarrow> exc + json" where
  "getitem2 j a b = (case getitem j a of Inl e \<Rightarrow> Inl e | Inr v \<Rightarrow> getitem v b)"

definition getitem3 :: "json \<Rightarrow> string \<Rightarrow> string \<Rightarrow> string \<Rightarrow> exc + json" where
  "getitem3 j a b c = (case getitem2 j a b of Inl e \<Rightarrow> Inl e | Inr v \<Rightarrow> getitem v c)"

text \<open>\<open>d[key] = v\<close> on a dictionary: an existing key keeps its place.\<close>

fun setitem_alist :: "(string \<times> json) list \<Rightarrow> string \<Rightarrow> json \<Rightarrow> (string \<times> json) list" where
  "setitem_alist [] k v = [(k, v)]"
| "setitem_alist ((k', v') # kvs) k v =
     (if k' = k then (k, v) # kvs else (k', v') # setitem_alist kvs k v)"

fun setitem :: "json \<Rightarrow> string \<Rightarrow> json \<Rightarrow> exc + json" where
  "setitem (JObj kvs) k v = Inr (JObj (setitem_alist kvs k v))"
| "setitem _ k v = Inl TypeError"

text \<open>\<open>key in d\<close> as the source uses it, on a dictionary; \<open>the_default\<close> reads a
  value that a test of \<open>key in d\<close> has shown to be there.\<close>

definition the_default :: "json \<Rightarrow> exc + json \<Rightarrow> json" where
  "the_default d r = (case r of Inl e \<Rightarrow> d | Inr v \<Rightarrow> v)"


fun contains_key :: "json \<Rightarrow> string \<Rightarrow> bool" where
  "contains_key (JObj kvs) k = (map_of kvs k \<noteq> None)"
| "contains_key _ k = False"

text \<open>Python's truth value of an object.\<close>

fun truthy :: "json \<Rightarrow> bool" where
  "truthy JNull = False"
| "truthy (JBool b) = b"
| "truthy (JNum n) = (n \<noteq> 0)"
| "truthy (JStr s) = (s \<noteq> [])"
| "truthy (JList xs) = (xs \<noteq> [])"
| "truthy (JObj kvs) = (kvs \<noteq> [])"

text \<open>\<open>for i in obj\<close>: a list gives its elements, a dictionary its keys, a string its
  characters; nothing else can be iterated.\<close>

fun py_iter :: "json \<Rightarrow> exc + json list" where
  "py_iter (JList xs) = Inr xs"
| "py_iter (JObj kvs) = Inr (map (\<lambda>kv. JStr (fst kv)) kvs)"
| "py_iter (JStr s) = Inr (map (\<lambda>c. JStr [c]) s)"
| "py_iter _ = Inl TypeError"

section \<open>Strings: split, join and the two regular expressions\<close>

text \<open>\<open>s.split(d)\<close> for a one-character separator, and \<open>sep.join(xs)\<close>.\<close>

fun split_on :: "char \<Rightarrow> string \<Rightarrow> string list" where
  "split_on d [] = [[]]"
| "split_on d (c # cs) =
     (if c = d then [] # split_on d cs
      else (case split_on d cs of [] \<Rightarrow> [[c]] | p # ps \<Rightarrow> (c # p) # ps))"

fun join_with :: "string \<Rightarrow> string list \<Rightarrow> string" where
  "join_with sep [] = []"
| "join_with sep [x] = x"
| "join_with sep (x # y # ys) = x @ sep @ join_with sep (y # ys)"

text \<open>
  \<open>hash_types\<close>: the patterns \<^verbatim>\<open>^[a-fA-F0-9]{n}$\<close> for n = 32, 40, 64, tried with
  \<open>re.match\<close>. Python's \<^verbatim>\<open>$\<close> matches at the end of the string and also just before
  a newline that ends the string. \<open>re.match\<close> on anything but a string raises TypeError.
\<close>

definition hash_types :: "nat list" where
  "hash_types = [32, 40, 64]"

definition is_hex :: "char \<Rightarrow> bool" where
  "is_hex c = (c \<in> set ''0123456789abcdefABCDEF'')"

definition hex_match :: "nat \<Rightarrow> string \<Rightarrow> bool" where
  "hex_match n s =
     (n \<le> length s \<and> list_all is_hex (take n s) \<and> (drop n s = [] \<or> drop n s = [CHR 0x0A]))"

fun re_match :: "nat \<Rightarrow> json \<Rightarrow> exc + bool" where
  "re_match n (JStr s) = Inr (hex_match n s)"
| "re_match n _ = Inl TypeError"

text \<open>
  The session pattern \<^verbatim>\<open>sessionId='(.*?[^\\])'\<close>. After the literal prefix the group
  is the shortest non-empty run whose last character is not a backslash and is followed
  by a quote; the lazy part \<^verbatim>\<open>.*?\<close> cannot cross a newline. \<open>lazy_group acc s\<close> has
  \<open>acc\<close> (reversed) already taken by the lazy part and returns the group with the text
  after the closing quote.
\<close>

fun lazy_group :: "string \<Rightarrow> string \<Rightarrow> (string \<times> string) option" where
  "lazy_group acc (c # d # rest) =
     (if c \<noteq> CHR 0x5C \<and> d = CHR 0x27 then Some (rev (c # acc), rest)
      else if c = CHR 0x0A then None
      else lazy_group (c # acc) (d # rest))"
| "lazy_group acc _ = None"

fun strip_prefix :: "string \<Rightarrow> string \<Rightarrow> string option" where
  "strip_prefix [] s = Some s"
| "strip_prefix (p # ps) [] = None"
| "strip_prefix (p # ps) (c # cs) = (if p = c then strip_prefix ps cs else None)"

definition session_prefix :: string where
  "session_prefix = ''sessionId='' @ [CHR 0x27]"

definition match_here :: "string \<Rightarrow> (string \<times> string) option" where
  "match_here s = (case strip_prefix session_prefix s of None \<Rightarrow> None | Some r \<Rightarrow> lazy_group [] r)"

lemma lazy_group_shorter: "lazy_group acc s = Some (g, r) \<Longrightarrow> length r < length s"
  by (induction acc s rule: lazy_group.induct) (auto split: if_splits)

lemma strip_prefix_shorter: "strip_prefix p s = Some r \<Longrightarrow> length r \<le> length s"
  by (induction p s rule: strip_prefix.induct) (auto split: if_splits)

lemma match_here_shorter: "match_here s = Some (g, r) \<Longrightarrow> length r < length s"
  unfolding match_here_def
  by (auto split: option.splits dest!: lazy_group_shorter strip_prefix_shorter)

text \<open>\<open>r.findall(s)\<close>: the groups of the non-overlapping matches, left to right.\<close>

function findall :: "string \<Rightarrow> string list" where
  "findall [] = []"
| "findall (c # cs) =
     (case match_here (c # cs) of
        None \<Rightarrow> findall cs
      | Some (g, r) \<Rightarrow> g # findall r)"
  by pat_completeness auto
termination
  by (relation "measure length") (auto dest: match_here_shorter)

section \<open>The world around the credentials object\<close>

text \<open>
  What the source takes from libraries and from the host is a parameter of the model:
  the digest and the canonical serialisation behind the two cache keys, dateutil's
  parser followed by \<open>timestamp()\<close> (\<open>None\<close> when it raises), the clock, the upstream
  identity endpoint (indexed by the number of exchanges made before), the order in
  which a Python \<open>set\<close> is iterated, and the host's two token handlers.
\<close>

text \<open>
  A response, by the three things the source reads from it: \<open>r.status_code\<close>, the
  \<open>WWW-Authenticate\<close> entry of \<open>r.headers\<close> (\<open>None\<close> when the header is absent), and
  \<open>r.json()\<close> (\<open>None\<close> when the body does not decode). A POST that raises instead of
  returning (no connection, a timeout) is \<open>ConnectionFailed\<close>.
\<close>

record response =
  status_code :: int
  www_authenticate :: "string option"
  json_body :: "json option"

datatype post_result = ConnectionFailed | Responded response

record env =
  sha224 :: "string \<Rightarrow> string"
  json_dumps :: "json \<Rightarrow> string"
  parse_time :: "string \<Rightarrow> int option"
  clock :: "nat \<Rightarrow> int"
  upstream :: "nat \<Rightarrow> json \<Rightarrow> (string \<Rightarrow> string option) \<Rightarrow> post_result"
  set_order :: "string list \<Rightarrow> string list"
  validate_scoped :: "json \<Rightarrow> string + json"
  handle_unscoped :: "json \<Rightarrow> (string \<Rightarrow> json option) \<Rightarrow> string + json"

text \<open>
  The state shared by all calls in the process: the two cache regions
  (\<open>RXT_SESSION_CACHE\<close>, \<open>RXT_SERVICE_CACHE\<close>), the class attribute \<open>rxt_headers\<close> (one
  dictionary, updated in place), the request environment, and two ghost fields: the
  requests posted so far (body and headers, oldest first) and the number of clock reads.
  A region is a map with \<open>get\<close>, \<open>set\<close> and \<open>delete\<close>; calls run one after the other, and
  no entry leaves a region by its time-to-live while they run.
\<close>

record world =
  sess_cache :: "string \<Rightarrow> string option"
  srv_cache :: "string \<Rightarrow> json option"
  rxt_headers :: "string \<Rightarrow> string option"
  environ :: "string \<Rightarrow> json option"
  posts :: "(json \<times> (string \<Rightarrow> string option)) list"
  ticks :: nat

text \<open>The instance attributes of \<open>RXTv2Credentials\<close>.\<close>

record creds =
  auth_payload :: json
  hashed_auth_payload :: string
  hashed_auth_user :: string
  session_id :: "string option"
  rxt_auth_payload :: "(string \<times> json) option"

text \<open>
  What \<open>authenticate\<close> returns: \<open>base.AuthHandlerResponse\<close> with its \<open>status\<close> and
  \<open>response_data\<close> (\<open>response_body\<close> is always \<open>None\<close>), or, for a payload of another
  domain, whatever the host's own plugin returns (\<open>HostAuth\<close>). A raised exception is
  \<open>Inl\<close> of a result, and \<open>and_then\<close> chains two steps of which the first may raise.
\<close>

datatype outcome = HostAuth | AuthHandlerResponse bool "json option"

definition and_then :: "exc + 'a \<Rightarrow> ('a \<Rightarrow> exc + 'b) \<Rightarrow> exc + 'b" where
  "and_then m f = (case m of Inl e \<Rightarrow> Inl e | Inr v \<Rightarrow> f v)"

section \<open>The properties of the credentials object\<close>

text \<open>The source's private names \<open>_username\<close>, \<open>_password\<close>, \<open>_passcode\<close>, \<open>_sessionID\<close>
  and \<open>_rxt_auth\<close> are written with the prefix \<open>priv\<close>.\<close>

definition priv_username :: "json \<Rightarrow> exc + json" where
  "priv_username p =
     (case getitem2 p ''user'' ''name'' of
        Inl (KeyError k) \<Rightarrow>
          (case getitem2 p ''user'' ''username'' of
             Inl (KeyError k') \<Rightarrow> Inl (Unauthorized MissingName)
           | r \<Rightarrow> r)
      | r \<Rightarrow> r)"

definition priv_password :: "json \<Rightarrow> exc + json" where
  "priv_password p =
     (case getitem2 p ''user'' ''password'' of
        Inl (KeyError k) \<Rightarrow> Inl (Unauthorized MissingPassword)
      | r \<Rightarrow> r)"

definition priv_passcode :: "json \<Rightarrow> exc + json" where
  "priv_passcode p =
     (case getitem2 p ''user'' ''passcode'' of
        Inl (KeyError k) \<Rightarrow> Inr JNull
      | r \<Rightarrow> r)"

definition priv_sessionID :: "world \<Rightarrow> creds \<Rightarrow> string option" where
  "priv_sessionID w c =
     (case sess_cache w (hashed_auth_user c) of
        None \<Rightarrow> None
      | Some h \<Rightarrow> (case findall h of [] \<Rightarrow> None | m # ms \<Rightarrow> Some (last (m # ms))))"

definition apiKeyCredentials :: "json \<Rightarrow> exc + string \<times> json" where
  "apiKeyCredentials p =
     and_then (priv_username p) (\<lambda>u. and_then (priv_password p) (\<lambda>pw.
       Inr (''apiKeyCredentials'',
            JObj [(''auth'', JObj [(''RAX-KSKEY:apiKeyCredentials'',
                    JObj [(''username'', u), (''apiKey'', pw)])])])))"

definition passwordCredentials :: "json \<Rightarrow> exc + string \<times> json" where
  "passwordCredentials p =
     and_then (priv_username p) (\<lambda>u. and_then (priv_password p) (\<lambda>pw.
       Inr (''passwordCredentials'',
            JObj [(''auth'', JObj [(''passwordCredentials'',
                    JObj [(''username'', u), (''password'', pw)])])])))"

definition passcodeCredentials :: "json \<Rightarrow> exc + string \<times> json" where
  "passcodeCredentials p =
     and_then (priv_passcode p) (\<lambda>pc.
       Inr (''passcodeCredentials'',
            JObj [(''auth'', JObj [(''RAX-AUTH:passcodeCredentials'',
                    JObj [(''passcode'', pc)])])]))"

text \<open>\<open>__init__\<close>: the two digests; \<open>encode\<close> exists on a string only.\<close>

definition init :: "env \<Rightarrow> json \<Rightarrow> exc + creds" where
  "init ev p =
     and_then (priv_username p) (\<lambda>u.
       case u of
         JStr s \<Rightarrow>
           Inr \<lparr>auth_payload = p,
                hashed_auth_payload = sha224 ev (json_dumps ev p),
                hashed_auth_user = sha224 ev s,
                session_id = None,
                rxt_auth_payload = None\<rparr>
       | _ \<Rightarrow> Inl AttributeError)"

section \<open>Credential selection: \<open>__enter__\<close>\<close>

text \<open>The \<open>for hash_type in self.hash_types\<close> loop with its \<open>break\<close>.\<close>

fun hash_loop :: "nat list \<Rightarrow> creds \<Rightarrow> exc + creds" where
  "hash_loop [] c = Inr c"
| "hash_loop (n # ns) c =
     and_then (priv_password (auth_payload c)) (\<lambda>pw.
       and_then (re_match n pw) (\<lambda>hit.
         if hit then
           and_then (apiKeyCredentials (auth_payload c)) (\<lambda>cr.
             Inr (c\<lparr>rxt_auth_payload := Some cr\<rparr>))
         else hash_loop ns c))"

text \<open>The session id when \<open>self._passcode and self.session_id\<close> holds.\<close>

definition passcode_session :: "json \<Rightarrow> string option \<Rightarrow> string option" where
  "passcode_session pc sid =
     (case sid of
        None \<Rightarrow> None
      | Some s \<Rightarrow> if truthy pc \<and> s \<noteq> [] then Some s else None)"

definition enter :: "creds \<Rightarrow> world \<Rightarrow> (exc + creds) \<times> world" where
  "enter c w =
     (let c1 = c\<lparr>session_id := priv_sessionID w c\<rparr> in
      case priv_passcode (auth_payload c1) of
        Inl e \<Rightarrow> (Inl e, w)
      | Inr pc \<Rightarrow>
          (case (case passcode_session pc (session_id c1) of
                   Some s \<Rightarrow>
                     (case passcodeCredentials (auth_payload c1) of
                        Inl e \<Rightarrow> (Inl e, w)
                      | Inr cr \<Rightarrow>
                          (Inr (c1\<lparr>rxt_auth_payload := Some cr\<rparr>),
                           w\<lparr>rxt_headers := (rxt_headers w)(''X-SessionId'' \<mapsto> s)\<rparr>))
                 | None \<Rightarrow> (hash_loop hash_types c1, w)) of
             (Inl e, w1) \<Rightarrow> (Inl e, w1)
           | (Inr c2, w1) \<Rightarrow>
               (case rxt_auth_payload c2 of
                  None \<Rightarrow>
                    (case passwordCredentials (auth_payload c2) of
                       Inl e \<Rightarrow> (Inl e, w1)
                     | Inr cr \<Rightarrow> (Inr (c2\<lparr>rxt_auth_payload := Some cr\<rparr>), w1))
                | Some cr \<Rightarrow> (Inr c2, w1))))"

section \<open>The catalog translator\<close>

definition set_if :: "string \<Rightarrow> json \<Rightarrow> (string \<Rightarrow> json option) \<Rightarrow> (string \<Rightarrow> json option)" where
  "set_if k v en = (if truthy v then en(k \<mapsto> v) else en)"

definition set_federation_env ::
  "json \<Rightarrow> json \<Rightarrow> json \<Rightarrow> json \<Rightarrow> json \<Rightarrow> json \<Rightarrow> (string \<Rightarrow> json option) \<Rightarrow> (string \<Rightarrow> json option)" where
  "set_federation_env username email domain_id tenant_name tenant_id org_person_type en =
     set_if ''RXT_orgPersonType'' org_person_type
       (set_if ''RXT_TenantID'' tenant_id
         (set_if ''RXT_TenantName'' tenant_name
           (set_if ''RXT_DomainID'' domain_id
             (set_if ''RXT_Email'' email
               (set_if ''RXT_UserName'' username en)))))"

text \<open>\<open>i["name"].split(":")[-1]\<close> for one element of the roles.\<close>

definition role_name :: "json \<Rightarrow> exc + string" where
  "role_name i =
     and_then (getitem i ''name'') (\<lambda>n.
       case n of JStr s \<Rightarrow> Inr (last (split_on CHR '':'' s)) | _ \<Rightarrow> Inl AttributeError)"

fun role_names :: "json list \<Rightarrow> exc + string list" where
  "role_names [] = Inr []"
| "role_names (i # js) =
     and_then (role_name i) (\<lambda>n. and_then (role_names js) (\<lambda>ns. Inr (n # ns)))"

text \<open>The body of the \<open>try\<close> block of \<open>parse_service_catalog\<close>, up to the call of
  \<open>set_federation_env\<close>: the six arguments, evaluated in the source's order.\<close>

definition catalog_fields :: "env \<Rightarrow> json \<Rightarrow> exc + json \<times> json \<times> json \<times> json \<times> json \<times> json" where
  "catalog_fields ev cat =
     and_then (getitem cat ''access'') (\<lambda>access.
     and_then (getitem access ''user'') (\<lambda>access_user.
     and_then (getitem access ''token'') (\<lambda>access_token.
     and_then (getitem3 cat ''access'' ''user'' ''roles'') (\<lambda>roles.
     and_then (py_iter roles) (\<lambda>elems.
     and_then (role_names elems) (\<lambda>names.
     and_then (getitem access_user ''name'') (\<lambda>username.
     and_then (getitem access_user ''email'') (\<lambda>email.
     and_then (getitem access_user ''RAX-AUTH:domainId'') (\<lambda>domain_id.
     and_then (getitem2 access_token ''tenant'' ''name'') (\<lambda>tenant_name.
     and_then (getitem2 access_token ''tenant'' ''id'') (\<lambda>tenant_id.
       Inr (username, email, domain_id, tenant_name, tenant_id,
            JStr (join_with '';'' (set_order ev names))))))))))))))"

definition parse_service_catalog ::
  "env \<Rightarrow> json \<Rightarrow> (string \<Rightarrow> json option) \<Rightarrow> exc + (string \<Rightarrow> json option)" where
  "parse_service_catalog ev cat en =
     (case catalog_fields ev cat of
        Inl (KeyError k) \<Rightarrow> Inl (Unauthorized (CatalogParse k))
      | Inl e \<Rightarrow> Inl e
      | Inr (username, email, domain_id, tenant_name, tenant_id, org_person_type) \<Rightarrow>
          Inr (set_federation_env username email domain_id tenant_name tenant_id
                 org_person_type en))"

section \<open>The exchange: \<open>_rxt_auth\<close>\<close>

text \<open>
  The first block of \<open>_rxt_auth\<close>, the lookup in the catalog cache. \<open>Inr True\<close>: the
  cached catalog was translated and the function returns \<open>False\<close>; \<open>Inr False\<close>: the
  block falls through to the exchange.
\<close>

definition cached_catalog :: "env \<Rightarrow> creds \<Rightarrow> world \<Rightarrow> (exc + bool) \<times> world" where
  "cached_catalog ev c w =
     (case srv_cache w (hashed_auth_payload c) of
        None \<Rightarrow> (Inr False, w)
      | Some cat \<Rightarrow>
          if \<not> truthy cat then (Inr False, w)
          else
            (case getitem3 cat ''access'' ''token'' ''expires'' of
               Inl (KeyError k) \<Rightarrow>
                 (Inr False, w\<lparr>srv_cache := (srv_cache w)(hashed_auth_payload c := None)\<rparr>)
             | Inl e \<Rightarrow> (Inl e, w)
             | Inr (JStr s) \<Rightarrow>
                 (case parse_time ev s of
                    None \<Rightarrow> (Inl ParserError, w)
                  | Some token_expire \<Rightarrow>
                      (let now = clock ev (ticks w);
                           w1 = w\<lparr>ticks := Suc (ticks w)\<rparr>
                       in if token_expire > now then
                            (case parse_service_catalog ev cat (environ w1) of
                               Inl e \<Rightarrow> (Inl e, w1)
                             | Inr en \<Rightarrow> (Inr True, w1\<lparr>environ := en\<rparr>))
                          else
                            (Inr False,
                             w1\<lparr>srv_cache := (srv_cache w1)(hashed_auth_payload c := None)\<rparr>)))
             | Inr _ \<Rightarrow> (Inl TypeError, w)))"

text \<open>\<open>raise_for_status\<close> raises for the statuses 400 to 599.\<close>

definition is_http_error :: "int \<Rightarrow> bool" where
  "is_http_error st = (400 \<le> st \<and> st < 600)"

text \<open>The truth value of \<open>self.session_id\<close>.\<close>

definition has_session :: "creds \<Rightarrow> bool" where
  "has_session c = (case session_id c of None \<Rightarrow> False | Some s \<Rightarrow> s \<noteq> [])"

text \<open>The rest of \<open>_rxt_auth\<close>: the pending-session shortcut and the POST.\<close>

definition exchange :: "env \<Rightarrow> creds \<Rightarrow> json \<Rightarrow> string \<Rightarrow> world \<Rightarrow> (exc + bool) \<times> world" where
  "exchange ev c auth_data auth_type w =
     (if has_session c \<and> auth_type = ''passwordCredentials'' then (Inr True, w)
      else
        (let w1 = w\<lparr>posts := posts w @ [(auth_data, rxt_headers w)]\<rparr> in
         case upstream ev (length (posts w)) auth_data (rxt_headers w) of
           ConnectionFailed \<Rightarrow> (Inl ConnectionError, w1)
         | Responded r \<Rightarrow>
             (case (if status_code r = 401 then www_authenticate r else None) of
                Some h \<Rightarrow>
                  (Inr True, w1\<lparr>sess_cache := (sess_cache w1)(hashed_auth_user c \<mapsto> h)\<rparr>)
              | None \<Rightarrow>
                  if is_http_error (status_code r) then (Inl (HTTPError (status_code r)), w1)
                  else
                    (case json_body r of
                       None \<Rightarrow> (Inl JSONDecodeError, w1)
                     | Some cat \<Rightarrow>
                         (case parse_service_catalog ev cat (environ w1) of
                            Inl e \<Rightarrow> (Inl e, w1)
                          | Inr en \<Rightarrow>
                              (Inr False,
                               w1\<lparr>environ := en,
                                  srv_cache := (srv_cache w1)(hashed_auth_payload c \<mapsto> cat)\<rparr>))))))"

definition priv_rxt_auth :: "env \<Rightarrow> creds \<Rightarrow> json \<Rightarrow> string \<Rightarrow> world \<Rightarrow> (exc + bool) \<times> world" where
  "priv_rxt_auth ev c auth_data auth_type w =
     (case cached_catalog ev c w of
        (Inl e, w1) \<Rightarrow> (Inl e, w1)
      | (Inr True, w1) \<Rightarrow> (Inr False, w1)
      | (Inr False, w1) \<Rightarrow> exchange ev c auth_data auth_type w1)"

section \<open>The orchestrator: \<open>rxt_auth\<close> and \<open>authenticate\<close>\<close>

text \<open>\<open>return_auth_handler\<close> adds two keys to the payload and hands it to the host.\<close>

definition return_auth_handler :: "env \<Rightarrow> creds \<Rightarrow> world \<Rightarrow> (exc + outcome) \<times> world" where
  "return_auth_handler ev c w =
     (case and_then (setitem (auth_payload c) ''identity_provider'' (JStr ''rackspace''))
             (\<lambda>p1. setitem p1 ''protocol'' (JStr ''rackspace'')) of
        Inl e \<Rightarrow> (Inl e, w)
      | Inr p2 \<Rightarrow>
          (case (if contains_key p2 ''id''
                 then validate_scoped ev (the_default JNull (getitem p2 ''id''))
                 else handle_unscoped ev p2 (environ w)) of
             Inl msg \<Rightarrow> (Inl (HostError msg), w)
           | Inr response_data \<Rightarrow> (Inr (AuthHandlerResponse True (Some response_data)), w)))"

text \<open>The measure of the recursion of \<open>rxt_auth\<close>: one retry is left while the
  payload still is the API key's.\<close>

definition retries_left :: "creds \<Rightarrow> nat" where
  "retries_left c =
     (case rxt_auth_payload c of
        None \<Rightarrow> 0
      | Some cr \<Rightarrow> if fst cr = ''apiKeyCredentials'' then 1 else 0)"

lemma passwordCredentials_kind:
  "passwordCredentials p = Inr cr \<Longrightarrow> fst cr = ''passwordCredentials''"
  by (auto simp: passwordCredentials_def and_then_def split: sum.splits)

function rxt_auth :: "env \<Rightarrow> creds \<Rightarrow> world \<Rightarrow> (exc + outcome) \<times> world" where
  "rxt_auth ev c w =
     (case rxt_auth_payload c of
        None \<Rightarrow> (Inl TypeError, w)
      | Some (auth_type, auth_data) \<Rightarrow>
          (case priv_rxt_auth ev c auth_data auth_type w of
             (Inl (HTTPError st), w1) \<Rightarrow>
               if auth_type = ''apiKeyCredentials'' then
                 (case passwordCredentials (auth_payload c) of
                    Inl e \<Rightarrow> (Inl e, w1)
                  | Inr cr \<Rightarrow> rxt_auth ev (c\<lparr>rxt_auth_payload := Some cr\<rparr>) w1)
               else (Inl (Unauthorized (AuthFailed auth_type)), w1)
           | (Inl e, w1) \<Rightarrow> (Inl e, w1)
           | (Inr rxt_auth_mfa, w1) \<Rightarrow>
               if rxt_auth_mfa then (Inr (AuthHandlerResponse False None), w1)
               else return_auth_handler ev c w1))"
  by pat_completeness auto
termination
  by (relation "measure (\<lambda>(ev, c, w). retries_left c)")
     (auto simp: retries_left_def dest: passwordCredentials_kind)

declare rxt_auth.simps [simp del]

text \<open>\<open>with RXTv2Credentials(auth_payload=auth_payload) as rxt\<close>: the constructor, then
  \<open>__enter__\<close>. \<open>selected_kind\<close> is the \<open>auth_type\<close> that \<open>rxt_auth\<close> will unpack.\<close>

definition with_credentials :: "env \<Rightarrow> world \<Rightarrow> json \<Rightarrow> (exc + creds) \<times> world" where
  "with_credentials ev w p = (case init ev p of Inl e \<Rightarrow> (Inl e, w) | Inr c \<Rightarrow> enter c w)"

definition selected_kind :: "env \<Rightarrow> world \<Rightarrow> json \<Rightarrow> exc + string" where
  "selected_kind ev w p =
     and_then (fst (with_credentials ev w p)) (\<lambda>c.
       case rxt_auth_payload c of None \<Rightarrow> Inl TypeError | Some cr \<Rightarrow> Inr (fst cr))"

text \<open>
  \<open>RXTPassword.authenticate\<close> (\<open>RXTTOTP.authenticate\<close> is the same text): a payload of
  another domain goes to the host's own plugin, outcome \<open>HostAuth\<close>.
\<close>

definition authenticate :: "env \<Rightarrow> world \<Rightarrow> json \<Rightarrow> (exc + outcome) \<times> world" where
  "authenticate ev w p =
     (case and_then (getitem3 p ''user'' ''domain'' ''name'')
             (\<lambda>n. Inr (n = JStr ''rackspace_cloud_domain'')) of
        Inl (KeyError k) \<Rightarrow> (Inr HostAuth, w)
      | Inl e \<Rightarrow> (Inl e, w)
      | Inr False \<Rightarrow> (Inr HostAuth, w)
      | Inr True \<Rightarrow>
          (case with_credentials ev w p of
             (Inl e, w1) \<Rightarrow> (Inl e, w1)
           | (Inr rxt, w1) \<Rightarrow> rxt_auth ev rxt w1))"

section \<open>Concrete data for the examples\<close>

text \<open>
  Stand-ins for the library functions, used only where a statement is evaluated on a
  concrete input: a tagged copy for the digest, a plain serialiser, a two-entry table
  for the date parser (it rejects every other string, the empty one included), a
  constant clock, first-occurrence order for a set, and host handlers that return what
  they are given.
\<close>

fun demo_dumps :: "json \<Rightarrow> string"
  and demo_dumps_list :: "json list \<Rightarrow> string"
  and demo_dumps_obj :: "(string \<times> json) list \<Rightarrow> string" where
  "demo_dumps JNull = ''null''"
| "demo_dumps (JBool b) = (if b then ''true'' else ''false'')"
| "demo_dumps (JNum n) = (if n < 0 then ''-'' else []) @ replicate (nat (abs n)) CHR ''1''"
| "demo_dumps (JStr s) = ''<'' @ s @ ''>''"
| "demo_dumps (JList xs) = ''['' @ demo_dumps_list xs @ '']''"
| "demo_dumps (JObj kvs) = ''{'' @ demo_dumps_obj kvs @ ''}''"
| "demo_dumps_list [] = []"
| "demo_dumps_list (x # xs) = demo_dumps x @ '','' @ demo_dumps_list xs"
| "demo_dumps_obj [] = []"
| "demo_dumps_obj (kv # kvs) = fst kv @ '':'' @ demo_dumps (snd kv) @ '','' @ demo_dumps_obj kvs"

definition demo_parse_time :: "string \<Rightarrow> int option" where
  "demo_parse_time s =
     (if s = ''2099-01-01T00:00:00Z'' then Some 4070908800
      else if s = ''2001-01-01T00:00:00Z'' then Some 978307200
      else None)"

definition demo_env :: "(nat \<Rightarrow> json \<Rightarrow> (string \<Rightarrow> string option) \<Rightarrow> post_result) \<Rightarrow> env" where
  "demo_env up =
     \<lparr>sha224 = (\<lambda>s. ''sha224:'' @ s),
      json_dumps = demo_dumps,
      parse_time = demo_parse_time,
      clock = (\<lambda>n. 1700000000),
      upstream = up,
      set_order = remdups,
      validate_scoped = (\<lambda>tok. Inr tok),
      handle_unscoped = (\<lambda>p en. Inr p)\<rparr>"

definition empty_world :: world where
  "empty_world =
     \<lparr>sess_cache = Map.empty, srv_cache = Map.empty, rxt_headers = Map.empty,
      environ = Map.empty, posts = [], ticks = 0\<rparr>"

text \<open>Payloads of the rackspace domain, for the users alice and bob.\<close>

definition rackspace_user :: "(string \<times> json) list \<Rightarrow> json" where
  "rackspace_user kvs =
     JObj [(''user'',
            JObj (kvs @ [(''domain'', JObj [(''name'', JStr ''rackspace_cloud_domain'')])]))]"

definition pl_password :: json where
  "pl_password = rackspace_user [(''name'', JStr ''alice''), (''password'', JStr ''secret'')]"

definition pl_apikey :: json where
  "pl_apikey = rackspace_user [(''name'', JStr ''alice''), (''password'', JStr ''deadbeefdeadbeefdeadbeefdeadbeef'')]"

definition pl_passcode :: json where
  "pl_passcode = rackspace_user [(''name'', JStr ''alice''), (''password'', JStr ''secret''), (''passcode'', JStr ''123456'')]"

definition pl_passcode_only :: json where
  "pl_passcode_only = rackspace_user [(''name'', JStr ''alice''), (''passcode'', JStr ''123456'')]"

definition pl_bob :: json where
  "pl_bob = rackspace_user [(''name'', JStr ''bob''), (''password'', JStr ''hunter2'')]"

text \<open>A challenge header as the upstream sends it for MFA, the header it sends with
  a plain 401, and a service catalog.\<close>

definition mfa_header :: string where
  "mfa_header =
     ''OS-MF sessionId='' @ [CHR 0x27] @ ''abc123'' @ [CHR 0x27] @ '', factor='' @
     [CHR 0x27] @ ''PASSCODE'' @ [CHR 0x27]"

definition keystone_header :: string where
  "keystone_header = ''Keystone uri=https://identity.api.rackspacecloud.com''"

definition demo_roles :: "json list" where
  "demo_roles = [JObj [(''name'', JStr ''foo:bar'')], JObj [(''name'', JStr ''foo:admin'')]]"

definition demo_catalog :: "string \<Rightarrow> json list \<Rightarrow> json" where
  "demo_catalog expires roles =
     JObj [(''access'',
            JObj [(''token'',
                   JObj [(''expires'', JStr expires),
                         (''tenant'', JObj [(''name'', JStr ''acme''), (''id'', JStr ''1234'')])]),
                  (''user'',
                   JObj [(''name'', JStr ''alice''),
                         (''email'', JStr ''alice@example.com''),
                         (''RAX-AUTH:domainId'', JStr ''42''),
                         (''roles'', JList roles)])])]"

text \<open>Upstreams: one that cannot be reached, one that fails every request, one that
  answers every request with the MFA challenge, one that answers with the catalog,
  one that answers with a 401 and its usual header, and one whose catalog has an empty
  expiry.\<close>

definition respond :: "int \<Rightarrow> string option \<Rightarrow> json option \<Rightarrow> post_result" where
  "respond st h b = Responded \<lparr>status_code = st, www_authenticate = h, json_body = b\<rparr>"

definition no_upstream :: "nat \<Rightarrow> json \<Rightarrow> (string \<Rightarrow> string option) \<Rightarrow> post_result" where
  "no_upstream n b h = ConnectionFailed"

definition failing_upstream :: "nat \<Rightarrow> json \<Rightarrow> (string \<Rightarrow> string option) \<Rightarrow> post_result" where
  "failing_upstream n b h = respond 500 None None"

definition challenge_upstream :: "nat \<Rightarrow> json \<Rightarrow> (string \<Rightarrow> string option) \<Rightarrow> post_result" where
  "challenge_upstream n b h = respond 401 (Some mfa_header) None"

definition catalog_upstream :: "nat \<Rightarrow> json \<Rightarrow> (string \<Rightarrow> string option) \<Rightarrow> post_result" where
  "catalog_upstream n b h =
     respond 200 None (Some (demo_catalog ''2099-01-01T00:00:00Z'' demo_roles))"

definition plain_401_upstream :: "nat \<Rightarrow> json \<Rightarrow> (string \<Rightarrow> string option) \<Rightarrow> post_result" where
  "plain_401_upstream n b h = respond 401 (Some keystone_header) None"

definition bad_expiry_upstream :: "nat \<Rightarrow> json \<Rightarrow> (string \<Rightarrow> string option) \<Rightarrow> post_result" where
  "bad_expiry_upstream n b h = respond 200 None (Some (demo_catalog [] demo_roles))"

text \<open>Worlds: with a header cached for alice, with a catalog cached for a payload, and
  the world after alice, with a cached MFA session, has authenticated with her passcode.\<close>

definition world_with_header :: "string \<Rightarrow> world" where
  "world_with_header h = empty_world\<lparr>sess_cache := [''sha224:alice'' \<mapsto> h]\<rparr>"

definition world_with_catalog :: "json \<Rightarrow> json \<Rightarrow> world" where
  "world_with_catalog p cat = empty_world\<lparr>srv_cache := [''sha224:'' @ demo_dumps p \<mapsto> cat]\<rparr>"

definition world_after_alice :: world where
  "world_after_alice =
     snd (authenticate (demo_env catalog_upstream) (world_with_header mfa_header) pl_passcode)"

text \<open>The credentials object the constructor builds for alice, and after selection.\<close>

definition demo_creds :: "json \<Rightarrow> creds" where
  "demo_creds p =
     \<lparr>auth_payload = p, hashed_auth_payload = ''sha224:'' @ demo_dumps p,
      hashed_auth_user = ''sha224:alice'', session_id = None, rxt_auth_payload = None\<rparr>"

definition selected_creds :: "json \<Rightarrow> string option \<Rightarrow> string \<times> json \<Rightarrow> creds" where
  "selected_creds p sid cr = (demo_creds p)\<lparr>session_id := sid, rxt_auth_payload := Some cr\<rparr>"

section \<open>Vocabulary of the statements\<close>

text \<open>The three request bodies.\<close>

definition passcode_body :: "json \<Rightarrow> json" where
  "passcode_body pc = JObj [(''auth'', JObj [(''RAX-AUTH:passcodeCredentials'', JObj [(''passcode'', pc)])])]"

definition apikey_body :: "json \<Rightarrow> json \<Rightarrow> json" where
  "apikey_body u pw = JObj [(''auth'', JObj [(''RAX-KSKEY:apiKeyCredentials'',
                    JObj [(''username'', u), (''apiKey'', pw)])])]"

definition password_body :: "json \<Rightarrow> json \<Rightarrow> json" where
  "password_body u pw = JObj [(''auth'', JObj [(''passwordCredentials'',
                    JObj [(''username'', u), (''password'', pw)])])]"





text \<open>The caller's dictionary after \<open>return_auth_handler\<close> has written to it.\<close>

definition returned_payload :: "json \<Rightarrow> json" where
  "returned_payload p =
     the_default p
       (and_then (setitem p ''identity_provider'' (JStr ''rackspace''))
          (\<lambda>p1. setitem p1 ''protocol'' (JStr ''rackspace'')))"

text \<open>The answer the next request would get, and the challenge header of a 401.\<close>

definition answer :: "env \<Rightarrow> world \<Rightarrow> json \<Rightarrow> post_result" where
  "answer ev w body = upstream ev (length (posts w)) body (rxt_headers w)"

definition challenge :: "response \<Rightarrow> string option" where
  "challenge r = (if status_code r = 401 then www_authenticate r else None)"

text \<open>What \<open>rxt_auth\<close> does with the result of an attempt that is not an \<open>HTTPError\<close>.\<close>

definition finish :: "env \<Rightarrow> creds \<Rightarrow> (exc + bool) \<times> world \<Rightarrow> (exc + outcome) \<times> world" where
  "finish ev c rw =
     (case rw of
        (Inl e, w1) \<Rightarrow> (Inl e, w1)
      | (Inr mfa, w1) \<Rightarrow>
          if mfa then (Inr (AuthHandlerResponse False None), w1)
          else return_auth_handler ev c w1)"

text \<open>Classes of errors: those of a lookup, the type errors, and the errors that can
  leave \<open>authenticate\<close> (the structured one and those nothing catches).\<close>

definition lookup_err :: "exc \<Rightarrow> bool" where
  "lookup_err e = ((\<exists>k. e = KeyError k) \<or> e = TypeError \<or> e = AttributeError)"

definition raw_type_err :: "exc \<Rightarrow> bool" where
  "raw_type_err e = (e = TypeError \<or> e = AttributeError)"


section \<open>Basic facts\<close>

lemma and_then_Inl [simp]: "and_then (Inl e) f = Inl e"
  by (simp add: and_then_def)

lemma and_then_Inr [simp]: "and_then (Inr v) f = f v"
  by (simp add: and_then_def)

lemma and_then_eq_Inr: "and_then m f = Inr y \<longleftrightarrow> (\<exists>v. m = Inr v \<and> f v = Inr y)"
  by (cases m) auto

subsection \<open>Payloads and selection\<close>

lemma getitem_Inr: "getitem j k = Inr v \<Longrightarrow> \<exists>kvs. j = JObj kvs \<and> map_of kvs k = Some v"
  by (cases j) (auto split: option.splits)

lemma getitem_KeyError: "getitem j k = Inl (KeyError k') \<Longrightarrow> \<exists>kvs. j = JObj kvs \<and> map_of kvs k = None \<and> k' = k"
  by (cases j) (auto split: option.splits)

text \<open>A payload whose user object is a dictionary.\<close>

lemma priv_username_shape:
  assumes "priv_username p = Inr u"
  shows "\<exists>kvs ukvs. p = JObj kvs \<and> map_of kvs ''user'' = Some (JObj ukvs)"
  using assms
  by (auto simp: priv_username_def getitem2_def split: sum.splits exc.splits dest!: getitem_Inr getitem_KeyError)

lemma priv_passcode_dict:
  assumes "p = JObj kvs" "map_of kvs ''user'' = Some (JObj ukvs)"
  shows "priv_passcode p = Inr (case map_of ukvs ''passcode'' of None \<Rightarrow> JNull | Some v \<Rightarrow> v)"
  using assms by (simp add: priv_passcode_def getitem2_def split: option.splits)

lemma priv_password_dict:
  assumes "p = JObj kvs" "map_of kvs ''user'' = Some (JObj ukvs)"
  shows "priv_password p = (case map_of ukvs ''password'' of None \<Rightarrow> Inl (Unauthorized MissingPassword) | Some v \<Rightarrow> Inr v)"
  using assms by (simp add: priv_password_def getitem2_def split: option.splits)

lemma init_Inr:
  assumes "init ev p = Inr c"
  shows "auth_payload c = p \<and> session_id c = None \<and> rxt_auth_payload c = None
       \<and> hashed_auth_payload c = sha224 ev (json_dumps ev p)
       \<and> (\<exists>u. priv_username p = Inr (JStr u) \<and> hashed_auth_user c = sha224 ev u)"
proof -
  from assms obtain u where u: "priv_username p = Inr u"
    and r: "(case u of JStr s \<Rightarrow> Inr \<lparr>auth_payload = p,
                hashed_auth_payload = sha224 ev (json_dumps ev p),
                hashed_auth_user = sha224 ev s, session_id = None,
                rxt_auth_payload = None\<rparr> | _ \<Rightarrow> Inl AttributeError) = Inr c"
    by (auto simp: init_def and_then_eq_Inr)
  then show ?thesis by (cases u) auto
qed

lemma hash_loop_str:
  assumes "priv_password (auth_payload c) = Inr (JStr pw)"
  shows "hash_loop ns c =
           (if \<exists>n\<in>set ns. hex_match n pw
            then and_then (apiKeyCredentials (auth_payload c))
                   (\<lambda>cr. Inr (c\<lparr>rxt_auth_payload := Some cr\<rparr>))
            else Inr c)"
  using assms by (induction ns) auto

lemma hash_loop_nonstr:
  assumes "priv_password (auth_payload c) = Inr pw" "\<forall>s. pw \<noteq> JStr s" "ns \<noteq> []"
  shows "hash_loop ns c = Inl TypeError"
  using assms by (cases ns; cases pw) auto

lemma hash_loop_missing:
  assumes "priv_password (auth_payload c) = Inl e" "ns \<noteq> []"
  shows "hash_loop ns c = Inl e"
  using assms by (cases ns) auto

lemma credentials_ok:
  assumes "priv_username p = Inr u" "priv_password p = Inr pw"
  shows "apiKeyCredentials p = Inr (''apiKeyCredentials'',
            JObj [(''auth'', JObj [(''RAX-KSKEY:apiKeyCredentials'',
                    JObj [(''username'', u), (''apiKey'', pw)])])])"
    and "passwordCredentials p = Inr (''passwordCredentials'',
            JObj [(''auth'', JObj [(''passwordCredentials'',
                    JObj [(''username'', u), (''password'', pw)])])])"
  using assms by (simp_all add: apiKeyCredentials_def passwordCredentials_def)

lemma lazy_group_nonempty: "lazy_group acc s = Some (g, r) \<Longrightarrow> g \<noteq> []"
  by (induction acc s rule: lazy_group.induct) (auto split: if_splits)

lemma findall_nonempty: "g \<in> set (findall s) \<Longrightarrow> g \<noteq> []"
  by (induction s rule: findall.induct)
     (auto simp: match_here_def split: option.splits dest: lazy_group_nonempty)

lemma priv_sessionID_nonempty:
  assumes "priv_sessionID w c = Some s"
  shows "s \<noteq> []"
proof -
  from assms obtain h m ms where "findall h = m # ms" and "s = last (m # ms)"
    by (auto simp: priv_sessionID_def simp del: last.simps split: option.splits list.splits)
  then have "s \<in> set (findall h)"
    using last_in_set [of "m # ms"] by (simp del: last.simps)
  then show ?thesis by (rule findall_nonempty)
qed

lemma passcode_session_Some:
  "passcode_session pc sid = Some s \<longleftrightarrow> truthy pc \<and> sid = Some s \<and> s \<noteq> []"
  by (auto simp: passcode_session_def split: option.splits)

lemma enter_passcode:
  assumes "priv_passcode (auth_payload c) = Inr pc" "truthy pc" "priv_sessionID w c = Some s"
  shows "enter c w =
           (Inr (c\<lparr>session_id := Some s,
                   rxt_auth_payload := Some (''passcodeCredentials'', passcode_body pc)\<rparr>),
            w\<lparr>rxt_headers := (rxt_headers w)(''X-SessionId'' \<mapsto> s)\<rparr>)"
proof -
  have "passcode_session pc (priv_sessionID w c) = Some s"
    using assms priv_sessionID_nonempty [OF assms(3)] by (simp add: passcode_session_Some)
  then show ?thesis
    using assms by (simp add: enter_def passcodeCredentials_def passcode_body_def)
qed

lemma enter_no_passcode:
  assumes "priv_passcode (auth_payload c) = Inr pc" "\<not> (truthy pc \<and> priv_sessionID w c \<noteq> None)"
    and "rxt_auth_payload c = None"
  shows "enter c w =
           (case priv_password (auth_payload c) of
              Inl e \<Rightarrow> (Inl e, w)
            | Inr (JStr pw) \<Rightarrow>
                (case priv_username (auth_payload c) of
                   Inl e \<Rightarrow> (Inl e, w)
                 | Inr u \<Rightarrow>
                    (Inr (c\<lparr>session_id := priv_sessionID w c,
                           rxt_auth_payload := Some
                             (if \<exists>n\<in>set hash_types. hex_match n pw
                              then (''apiKeyCredentials'', apikey_body u (JStr pw))
                              else (''passwordCredentials'', password_body u (JStr pw)))\<rparr>), w))
            | Inr _ \<Rightarrow> (Inl TypeError, w))"
proof -
  have ps: "passcode_session pc (priv_sessionID w c) = None"
    using assms(2) by (auto simp: passcode_session_def split: option.splits)
  let ?c1 = "c\<lparr>session_id := priv_sessionID w c\<rparr>"
  show ?thesis
  proof (cases "priv_password (auth_payload c)")
    case (Inl e)
    then have "hash_loop hash_types ?c1 = Inl e"
      by (intro hash_loop_missing) (simp_all add: hash_types_def)
    with Inl ps assms(1) show ?thesis by (simp add: enter_def)
  next
    case (Inr pwj)
    show ?thesis
    proof (cases "\<exists>pw. pwj = JStr pw")
      case False
      then have "hash_loop hash_types ?c1 = Inl TypeError"
        using Inr by (intro hash_loop_nonstr [where pw = pwj]) (simp_all add: hash_types_def)
      with Inr ps assms(1) False show ?thesis
        by (cases pwj) (simp_all add: enter_def)
    next
      case True
      then obtain pw where pw: "pwj = JStr pw" by blast
      have hl: "hash_loop hash_types ?c1 =
           (if \<exists>n\<in>set hash_types. hex_match n pw
            then and_then (apiKeyCredentials (auth_payload c))
                   (\<lambda>cr. Inr (?c1\<lparr>rxt_auth_payload := Some cr\<rparr>))
            else Inr ?c1)"
        using hash_loop_str [of ?c1 pw hash_types] Inr pw by simp
      show ?thesis
      proof (cases "priv_username (auth_payload c)")
        case (Inl e)
        then show ?thesis
          using Inr pw ps assms(1,3) hl
          by (simp add: enter_def apiKeyCredentials_def passwordCredentials_def Let_def)
      next
        case u: (Inr u)
        then show ?thesis
          using Inr pw ps assms(1,3) hl
          by (simp add: enter_def apiKeyCredentials_def passwordCredentials_def
                apikey_body_def password_body_def Let_def)
      qed
    qed
  qed
qed

lemma hash_types_match:
  "(\<exists>n\<in>set hash_types. hex_match n pw) \<longleftrightarrow> hex_match 32 pw \<or> hex_match 40 pw \<or> hex_match 64 pw"
  by (simp add: hash_types_def)

lemma init_passcode:
  assumes "init ev p = Inr c"
  shows "\<exists>pc. priv_passcode p = Inr pc"
proof -
  from init_Inr [OF assms] obtain u where "priv_username p = Inr (JStr u)" by blast
  from priv_username_shape [OF this] obtain kvs ukvs
    where "p = JObj kvs" "map_of kvs ''user'' = Some (JObj ukvs)" by blast
  from priv_passcode_dict [OF this] show ?thesis by blast
qed

subsection \<open>The errors of the translator\<close>

lemma getitem_err: "getitem j k = Inl e \<Longrightarrow> e = KeyError k \<or> e = TypeError"
  by (cases j) (auto split: option.splits)

lemma getitem2_err: "getitem2 j a b = Inl e \<Longrightarrow> (\<exists>k. e = KeyError k) \<or> e = TypeError"
  by (auto simp: getitem2_def split: sum.splits dest: getitem_err)

lemma getitem3_err: "getitem3 j a b c = Inl e \<Longrightarrow> (\<exists>k. e = KeyError k) \<or> e = TypeError"
  by (auto simp: getitem3_def split: sum.splits dest: getitem_err getitem2_err)

lemma py_iter_err: "py_iter j = Inl e \<Longrightarrow> e = TypeError"
  by (cases j) auto

lemma role_name_err: "role_name i = Inl e \<Longrightarrow> lookup_err e"
  by (auto simp: role_name_def and_then_def lookup_err_def split: sum.splits json.splits
           dest: getitem_err)

lemma role_names_err: "role_names js = Inl e \<Longrightarrow> lookup_err e"
  by (induction js arbitrary: e)
     (auto simp: and_then_def split: sum.splits dest: role_name_err)

lemma catalog_fields_err: "catalog_fields ev cat = Inl e \<Longrightarrow> lookup_err e"
  unfolding catalog_fields_def and_then_def
  by (auto split: sum.splits simp: lookup_err_def
           dest: getitem_err getitem2_err getitem3_err py_iter_err
                 role_names_err [unfolded lookup_err_def])

lemma parse_service_catalog_err:
  assumes "parse_service_catalog ev cat en = Inl e"
  shows "(\<exists>k. e = Unauthorized (CatalogParse k)) \<or> raw_type_err e"
proof (cases "catalog_fields ev cat")
  case (Inl e')
  from catalog_fields_err [OF this] Inl assms show ?thesis
    by (auto simp: parse_service_catalog_def lookup_err_def raw_type_err_def)
next
  case (Inr v)
  with assms show ?thesis
    by (auto simp: parse_service_catalog_def split: prod.splits)
qed

subsection \<open>The cache block and the exchange\<close>

text \<open>The cache block touches the catalog cache, the environment and the clock only.\<close>

lemma cached_catalog_frame:
  assumes "cached_catalog ev c w = (r, w1)"
  shows "posts w1 = posts w \<and> sess_cache w1 = sess_cache w \<and> rxt_headers w1 = rxt_headers w"
  using assms
  by (auto simp: cached_catalog_def Let_def
           split: option.splits if_splits sum.splits exc.splits json.splits)

lemma cached_catalog_err:
  assumes "cached_catalog ev c w = (Inl e, w1)"
  shows "(\<exists>k. e = Unauthorized (CatalogParse k)) \<or> raw_type_err e \<or> e = ParserError"
  using assms
  by (auto simp: cached_catalog_def Let_def raw_type_err_def
           split: option.splits if_splits sum.splits exc.splits json.splits
           dest!: parse_service_catalog_err getitem3_err)

lemma cached_catalog_miss:
  assumes "cached_catalog ev c w = (Inr False, w1)"
  shows "environ w1 = environ w
       \<and> (case srv_cache w1 (hashed_auth_payload c) of None \<Rightarrow> True | Some cat \<Rightarrow> \<not> truthy cat)"
  using assms
  by (auto simp: cached_catalog_def Let_def
           split: option.splits if_splits sum.splits exc.splits json.splits)

lemma cached_catalog_miss_again:
  assumes "case srv_cache w (hashed_auth_payload c) of None \<Rightarrow> True | Some cat \<Rightarrow> \<not> truthy cat"
  shows "cached_catalog ev c w = (Inr False, w)"
  using assms by (auto simp: cached_catalog_def split: option.splits)

lemma cached_catalog_hit:
  assumes "cached_catalog ev c w = (Inr True, w1)"
  shows "\<exists>cat s t en.
           srv_cache w (hashed_auth_payload c) = Some cat \<and> truthy cat
         \<and> getitem3 cat ''access'' ''token'' ''expires'' = Inr (JStr s)
         \<and> parse_time ev s = Some t \<and> clock ev (ticks w) < t
         \<and> parse_service_catalog ev cat (environ w) = Inr en
         \<and> w1 = w\<lparr>ticks := Suc (ticks w), environ := en\<rparr>"
  using assms
  by (auto simp: cached_catalog_def Let_def
           split: option.splits if_splits sum.splits exc.splits json.splits)

lemma cached_catalog_hitI:
  assumes "srv_cache w (hashed_auth_payload c) = Some cat" "truthy cat"
      and "getitem3 cat ''access'' ''token'' ''expires'' = Inr (JStr s)"
      and "parse_time ev s = Some t" "clock ev (ticks w) < t"
      and "parse_service_catalog ev cat (environ w) = Inr en"
  shows "cached_catalog ev c w = (Inr True, w\<lparr>ticks := Suc (ticks w), environ := en\<rparr>)"
  using assms by (simp add: cached_catalog_def Let_def)

lemma exchange_shortcut:
  assumes "has_session c" "auth_type = ''passwordCredentials''"
  shows "exchange ev c body auth_type w = (Inr True, w)"
  using assms by (simp add: exchange_def)

lemma exchange_posts:
  assumes "\<not> (has_session c \<and> auth_type = ''passwordCredentials'')"
      and "exchange ev c body auth_type w = (r, w1)"
  shows "posts w1 = posts w @ [(body, rxt_headers w)] \<and> rxt_headers w1 = rxt_headers w
       \<and> ticks w1 = ticks w"
  using assms
  by (auto simp: exchange_def Let_def split: post_result.splits option.splits if_splits sum.splits)

lemma exchange_frame:
  assumes "exchange ev c body auth_type w = (r, w1)"
  shows "rxt_headers w1 = rxt_headers w \<and> ticks w1 = ticks w
       \<and> (posts w1 = posts w \<or> posts w1 = posts w @ [(body, rxt_headers w)])"
  using assms
  by (auto simp: exchange_def Let_def split: post_result.splits option.splits if_splits sum.splits)

lemma exchange_challenge:
  assumes "\<not> (has_session c \<and> auth_type = ''passwordCredentials'')"
      and "answer ev w body = Responded rs" "challenge rs = Some h"
  shows "exchange ev c body auth_type w =
           (Inr True, w\<lparr>posts := posts w @ [(body, rxt_headers w)],
                        sess_cache := (sess_cache w)(hashed_auth_user c \<mapsto> h)\<rparr>)"
  using assms by (auto simp: exchange_def Let_def answer_def challenge_def)

lemma exchange_HTTPError:
  assumes "exchange ev c body auth_type w = (Inl (HTTPError st), w1)"
  shows "\<not> (has_session c \<and> auth_type = ''passwordCredentials'')
       \<and> (\<exists>rs. answer ev w body = Responded rs \<and> challenge rs = None
               \<and> is_http_error (status_code rs) \<and> st = status_code rs)
       \<and> w1 = w\<lparr>posts := posts w @ [(body, rxt_headers w)]\<rparr>"
  using assms
  by (auto simp: exchange_def Let_def answer_def challenge_def
           split: post_result.splits option.splits if_splits sum.splits
           dest!: parse_service_catalog_err [unfolded raw_type_err_def])

lemma exchange_HTTPErrorI:
  assumes "\<not> (has_session c \<and> auth_type = ''passwordCredentials'')"
      and "answer ev w body = Responded rs" "challenge rs = None" "is_http_error (status_code rs)"
  shows "exchange ev c body auth_type w =
           (Inl (HTTPError (status_code rs)), w\<lparr>posts := posts w @ [(body, rxt_headers w)]\<rparr>)"
  using assms by (auto simp: exchange_def Let_def answer_def challenge_def)


lemma exchange_success:
  assumes "exchange ev c body auth_type w = (Inr False, w1)"
  shows "sess_cache w1 = sess_cache w
       \<and> (\<exists>cat en rs. answer ev w body = Responded rs \<and> json_body rs = Some cat
             \<and> parse_service_catalog ev cat (environ w) = Inr en
             \<and> w1 = w\<lparr>posts := posts w @ [(body, rxt_headers w)], environ := en,
                       srv_cache := (srv_cache w)(hashed_auth_payload c \<mapsto> cat)\<rparr>)"
  using assms
  by (auto simp: exchange_def Let_def answer_def
           split: post_result.splits option.splits if_splits sum.splits)

subsection \<open>One attempt, and the retry\<close>

lemma priv_rxt_auth_frame:
  assumes "priv_rxt_auth ev c body auth_type w = (r, w1)"
  shows "rxt_headers w1 = rxt_headers w
       \<and> (posts w1 = posts w \<or> posts w1 = posts w @ [(body, rxt_headers w)])"
proof -
  obtain r0 w0 where cc: "cached_catalog ev c w = (r0, w0)" by (cases "cached_catalog ev c w")
  note f = cached_catalog_frame [OF cc]
  show ?thesis
  proof (cases r0)
    case (Inl e)
    with cc assms f show ?thesis by (auto simp: priv_rxt_auth_def)
  next
    case (Inr hit)
    show ?thesis
    proof (cases hit)
      case True
      with Inr cc assms f show ?thesis by (auto simp: priv_rxt_auth_def)
    next
      case False
      with Inr cc assms have "exchange ev c body auth_type w0 = (r, w1)"
        by (simp add: priv_rxt_auth_def)
      from exchange_frame [OF this] f show ?thesis by auto
    qed
  qed
qed


text \<open>An attempt that ends in \<open>HTTPError\<close> has missed the cache and has posted; it
  leaves a world in which the cache would be missed again.\<close>

lemma priv_rxt_auth_HTTPError:
  assumes "priv_rxt_auth ev c body auth_type w = (Inl (HTTPError st), w1)"
  shows "\<exists>w0. cached_catalog ev c w = (Inr False, w0)
            \<and> exchange ev c body auth_type w0 = (Inl (HTTPError st), w1)
            \<and> w1 = w0\<lparr>posts := posts w @ [(body, rxt_headers w)]\<rparr>
            \<and> \<not> (has_session c \<and> auth_type = ''passwordCredentials'')
            \<and> (\<exists>rs. answer ev w body = Responded rs \<and> challenge rs = None
                    \<and> is_http_error (status_code rs) \<and> st = status_code rs)"
proof -
  obtain r0 w0 where cc: "cached_catalog ev c w = (r0, w0)" by (cases "cached_catalog ev c w")
  note f = cached_catalog_frame [OF cc]
  from cached_catalog_err [of ev c w "HTTPError st" w0] cc assms
  have "r0 = Inr False"
    by (cases r0) (auto simp: priv_rxt_auth_def raw_type_err_def split: bool.splits)
  with cc assms have ex: "exchange ev c body auth_type w0 = (Inl (HTTPError st), w1)"
    by (simp add: priv_rxt_auth_def)
  from exchange_HTTPError [OF ex] f cc \<open>r0 = Inr False\<close> ex show ?thesis
    by (auto simp: answer_def)
qed

lemma priv_rxt_auth_after_HTTPError:
  assumes "priv_rxt_auth ev c body auth_type w = (Inl (HTTPError st), w1)"
      and "hashed_auth_payload c' = hashed_auth_payload c"
  shows "priv_rxt_auth ev c' body' auth_type' w1 = exchange ev c' body' auth_type' w1"
proof -
  from priv_rxt_auth_HTTPError [OF assms(1)] obtain w0
    where cc: "cached_catalog ev c w = (Inr False, w0)"
      and w1: "w1 = w0\<lparr>posts := posts w @ [(body, rxt_headers w)]\<rparr>" by blast
  from cached_catalog_miss [OF cc] w1 assms(2)
  have "case srv_cache w1 (hashed_auth_payload c') of None \<Rightarrow> True | Some cat \<Rightarrow> \<not> truthy cat"
    by simp
  from cached_catalog_miss_again [OF this, of ev] show ?thesis
    by (simp add: priv_rxt_auth_def)
qed

lemma rxt_auth_unfold:
  assumes "rxt_auth_payload c = Some (auth_type, body)"
      and "priv_rxt_auth ev c body auth_type w = (r, w1)"
  shows "rxt_auth ev c w =
           (if \<exists>st. r = Inl (HTTPError st) then
              (if auth_type = ''apiKeyCredentials'' then
                 (case passwordCredentials (auth_payload c) of
                    Inl e \<Rightarrow> (Inl e, w1)
                  | Inr cr \<Rightarrow> rxt_auth ev (c\<lparr>rxt_auth_payload := Some cr\<rparr>) w1)
               else (Inl (Unauthorized (AuthFailed auth_type)), w1))
            else finish ev c (r, w1))"
proof (cases r)
  case (Inl e)
  with assms show ?thesis
    by (subst rxt_auth.simps) (cases e; simp add: finish_def)
next
  case (Inr mfa)
  with assms show ?thesis
    by (subst rxt_auth.simps) (simp add: finish_def)
qed

lemma rxt_auth_None:
  "rxt_auth_payload c = None \<Longrightarrow> rxt_auth ev c w = (Inl TypeError, w)"
  by (subst rxt_auth.simps) simp

lemma return_auth_handler_frame:
  "return_auth_handler ev c w = (r, w1) \<Longrightarrow> w1 = w"
  by (auto simp: return_auth_handler_def split: sum.splits if_splits)


lemma has_session_iff: "has_session c \<longleftrightarrow> (\<exists>s. session_id c = Some s \<and> s \<noteq> [])"
  by (auto simp: has_session_def split: option.splits)

text \<open>What a successful selection leaves behind.\<close>

lemma with_credentials_Inr:
  assumes "with_credentials ev w0 p = (Inr c, w)"
  shows "\<exists>c0 pc. init ev p = Inr c0 \<and> priv_passcode p = Inr pc
         \<and> c = c0\<lparr>session_id := priv_sessionID w0 c0, rxt_auth_payload := rxt_auth_payload c\<rparr>
         \<and> (has_session c \<longleftrightarrow> priv_sessionID w0 c0 \<noteq> None)
         \<and> ((\<exists>s. truthy pc \<and> priv_sessionID w0 c0 = Some s
                \<and> rxt_auth_payload c = Some (''passcodeCredentials'', passcode_body pc)
                \<and> w = w0\<lparr>rxt_headers := (rxt_headers w0)(''X-SessionId'' \<mapsto> s)\<rparr>)
           \<or> (\<not> (truthy pc \<and> priv_sessionID w0 c0 \<noteq> None) \<and> w = w0
               \<and> (\<exists>u pw. priv_username p = Inr u \<and> priv_password p = Inr (JStr pw)
                     \<and> rxt_auth_payload c = Some
                          (if \<exists>n\<in>set hash_types. hex_match n pw
                           then (''apiKeyCredentials'', apikey_body u (JStr pw))
                           else (''passwordCredentials'', password_body u (JStr pw))))))"
proof -
  from assms obtain c0 where i: "init ev p = Inr c0" and e: "enter c0 w0 = (Inr c, w)"
    by (auto simp: with_credentials_def split: sum.splits)
  from init_Inr [OF i] obtain u where c0: "auth_payload c0 = p" "rxt_auth_payload c0 = None"
    "session_id c0 = None" and u: "priv_username p = Inr (JStr u)" by blast
  from init_passcode [OF i] obtain pc where pc: "priv_passcode p = Inr pc" by blast
  have hs: "has_session (c0\<lparr>session_id := priv_sessionID w0 c0, rxt_auth_payload := x\<rparr>)
              \<longleftrightarrow> priv_sessionID w0 c0 \<noteq> None" for x
    using priv_sessionID_nonempty [of w0 c0] by (auto simp: has_session_iff)
  show ?thesis
  proof (cases "truthy pc \<and> priv_sessionID w0 c0 \<noteq> None")
    case True
    then obtain s where s: "truthy pc" "priv_sessionID w0 c0 = Some s" by auto
    from enter_passcode [of c0 pc w0 s] s pc c0 e
    have "c = c0\<lparr>session_id := Some s,
                  rxt_auth_payload := Some (''passcodeCredentials'', passcode_body pc)\<rparr>"
      and "w = w0\<lparr>rxt_headers := (rxt_headers w0)(''X-SessionId'' \<mapsto> s)\<rparr>"
      by simp_all
    with i pc s hs show ?thesis by auto
  next
    case False
    from enter_no_passcode [of c0 pc w0] False pc c0 e u
    obtain pw where pw: "priv_password p = Inr (JStr pw)"
      and c: "c = c0\<lparr>session_id := priv_sessionID w0 c0,
                       rxt_auth_payload := Some
                         (if \<exists>n\<in>set hash_types. hex_match n pw
                          then (''apiKeyCredentials'', apikey_body (JStr u) (JStr pw))
                          else (''passwordCredentials'', password_body (JStr u) (JStr pw)))\<rparr>"
      and w: "w = w0"
      by (auto split: sum.splits json.splits)
    from c have "rxt_auth_payload c = Some
                         (if \<exists>n\<in>set hash_types. hex_match n pw
                          then (''apiKeyCredentials'', apikey_body (JStr u) (JStr pw))
                          else (''passwordCredentials'', password_body (JStr u) (JStr pw)))"
      by simp
    with i pc False u pw c w hs show ?thesis by auto
  qed
qed

lemma authenticate_rackspace:
  assumes "getitem3 p ''user'' ''domain'' ''name'' = Inr (JStr ''rackspace_cloud_domain'')"
  shows "authenticate ev w p =
           (case with_credentials ev w p of
              (Inl e, w1) \<Rightarrow> (Inl e, w1)
            | (Inr rxt, w1) \<Rightarrow> rxt_auth ev rxt w1)"
  using assms by (simp add: authenticate_def)

lemma rxt_auth_last:
  assumes "rxt_auth_payload c = Some (auth_type, body)" "auth_type \<noteq> ''apiKeyCredentials''"
      and "priv_rxt_auth ev c body auth_type w = (r, w1)"
  shows "rxt_auth ev c w =
           (if \<exists>st. r = Inl (HTTPError st) then (Inl (Unauthorized (AuthFailed auth_type)), w1)
            else finish ev c (r, w1))"
  using rxt_auth_unfold [OF assms(1,3)] assms(2) by simp

subsection \<open>The answer to a posted request\<close>

text \<open>One attempt either posts nothing and does not end in \<open>HTTPError\<close>, or posts its
  request once, with a result that the answer determines.\<close>

lemma exchange_spec:
  assumes "exchange ev c body auth_type w = (r, w1)"
  shows "(posts w1 = posts w \<and> w1 = w \<and> r = Inr True
            \<and> has_session c \<and> auth_type = ''passwordCredentials'')
       \<or> (posts w1 = posts w @ [(body, rxt_headers w)]
            \<and> \<not> (has_session c \<and> auth_type = ''passwordCredentials'')
            \<and> (case answer ev w body of
                  ConnectionFailed \<Rightarrow> r = Inl ConnectionError \<and> sess_cache w1 = sess_cache w
                | Responded rs \<Rightarrow>
                    (case challenge rs of
                       Some h \<Rightarrow> r = Inr True
                                 \<and> sess_cache w1 = (sess_cache w)(hashed_auth_user c \<mapsto> h)
                     | None \<Rightarrow> r \<noteq> Inr True \<and> sess_cache w1 = sess_cache w)))"
proof (cases "has_session c \<and> auth_type = ''passwordCredentials''")
  case True
  with assms show ?thesis by (simp add: exchange_def)
next
  case False
  note p = exchange_posts [OF False assms]
  show ?thesis
  proof (cases "answer ev w body")
    case ConnectionFailed
    with assms False p show ?thesis
      by (auto simp: exchange_def Let_def answer_def)
  next
    case (Responded rs)
    show ?thesis
    proof (cases "challenge rs")
      case (Some h)
      from exchange_challenge [OF False Responded Some] assms Responded Some False p
      show ?thesis by auto
    next
      case None
      have "r \<noteq> Inr True \<and> sess_cache w1 = sess_cache w"
        using assms False Responded None
        by (auto simp: exchange_def Let_def answer_def challenge_def
                 split: option.splits if_splits sum.splits)
      with Responded None False p show ?thesis by simp
    qed
  qed
qed

lemma attempt_spec:
  assumes "priv_rxt_auth ev c body auth_type w = (r, w1)"
  shows "(posts w1 = posts w \<and> sess_cache w1 = sess_cache w \<and> (\<forall>st. r \<noteq> Inl (HTTPError st)))
       \<or> (posts w1 = posts w @ [(body, rxt_headers w)]
            \<and> (case answer ev w body of
                  ConnectionFailed \<Rightarrow> r = Inl ConnectionError \<and> sess_cache w1 = sess_cache w
                | Responded rs \<Rightarrow>
                    (case challenge rs of
                       Some h \<Rightarrow> r = Inr True
                                 \<and> sess_cache w1 = (sess_cache w)(hashed_auth_user c \<mapsto> h)
                     | None \<Rightarrow> r \<noteq> Inr True \<and> sess_cache w1 = sess_cache w)))"
proof -
  obtain r0 w0 where cc: "cached_catalog ev c w = (r0, w0)" by (cases "cached_catalog ev c w")
  note f = cached_catalog_frame [OF cc]
  show ?thesis
  proof (cases "r0 = Inr False")
    case False
    with cc assms have "(\<exists>e. r = Inl e \<and> r0 = Inl e) \<or> r = Inr False" and "w1 = w0"
      by (auto simp: priv_rxt_auth_def split: sum.splits bool.splits)
    then have "\<forall>st. r \<noteq> Inl (HTTPError st)"
      using cached_catalog_err [of ev c w _ w0] cc
      by (auto simp: raw_type_err_def)
    with \<open>w1 = w0\<close> f show ?thesis by simp
  next
    case True
    with cc assms have ex: "exchange ev c body auth_type w0 = (r, w1)"
      by (simp add: priv_rxt_auth_def)
    from f have eqs: "posts w0 = posts w" "rxt_headers w0 = rxt_headers w"
      "sess_cache w0 = sess_cache w" "answer ev w0 body = answer ev w body"
      by (simp_all add: answer_def)
    from exchange_spec [OF ex] show ?thesis
    proof (elim disjE conjE)
      assume "w1 = w0" "r = Inr True"
      with eqs show ?thesis by simp
    next
      assume "posts w1 = posts w0 @ [(body, rxt_headers w0)]"
        and "case answer ev w0 body of
                  ConnectionFailed \<Rightarrow> r = Inl ConnectionError \<and> sess_cache w1 = sess_cache w0
                | Responded rs \<Rightarrow>
                    (case challenge rs of
                       Some h \<Rightarrow> r = Inr True
                                 \<and> sess_cache w1 = (sess_cache w0)(hashed_auth_user c \<mapsto> h)
                     | None \<Rightarrow> r \<noteq> Inr True \<and> sess_cache w1 = sess_cache w0)"
      then show ?thesis unfolding eqs by blast
    qed
  qed
qed

lemma finish_frame: "finish ev c (r, w1) = (res, w') \<Longrightarrow> w' = w1"
  by (auto simp: finish_def split: sum.splits if_splits dest: return_auth_handler_frame)

lemma finish_pending: "finish ev c (Inr True, w1) = (Inr (AuthHandlerResponse False None), w1)"
  by (simp add: finish_def)

lemma attempt_challenge:
  assumes run: "priv_rxt_auth ev c body auth_type w = (r, w1)"
      and i: "length (posts w) \<le> i" "i < length (posts w1)"
      and ans: "upstream ev i (fst (posts w1 ! i)) (snd (posts w1 ! i)) = Responded rs"
      and ch: "challenge rs = Some h"
  shows "r = Inr True \<and> sess_cache w1 (hashed_auth_user c) = Some h"
proof -
  from attempt_spec [OF run] i
  have p: "posts w1 = posts w @ [(body, rxt_headers w)]"
    and a: "case answer ev w body of
                  ConnectionFailed \<Rightarrow> r = Inl ConnectionError \<and> sess_cache w1 = sess_cache w
                | Responded rs \<Rightarrow>
                    (case challenge rs of
                       Some h \<Rightarrow> r = Inr True
                                 \<and> sess_cache w1 = (sess_cache w)(hashed_auth_user c \<mapsto> h)
                     | None \<Rightarrow> r \<noteq> Inr True \<and> sess_cache w1 = sess_cache w)"
    by auto
  from p i have "i = length (posts w)" by simp
  with p ans have "answer ev w body = Responded rs" by (simp add: answer_def)
  with a ch show ?thesis by simp
qed

lemma rxt_auth_challenge:
  assumes run: "rxt_auth ev c w = (res, w')"
      and i: "length (posts w) \<le> i" "i < length (posts w')"
      and ans: "upstream ev i (fst (posts w' ! i)) (snd (posts w' ! i)) = Responded rs"
      and ch: "challenge rs = Some h"
  shows "res = Inr (AuthHandlerResponse False None) \<and> sess_cache w' (hashed_auth_user c) = Some h"
proof (cases "rxt_auth_payload c")
  case None
  from rxt_auth_None [OF None, of ev w] run i show ?thesis by simp
next
  case (Some cr)
  obtain auth_type body where cr: "rxt_auth_payload c = Some (auth_type, body)"
    using Some by (cases cr) simp
  obtain r w1 where at: "priv_rxt_auth ev c body auth_type w = (r, w1)"
    by (cases "priv_rxt_auth ev c body auth_type w")
  note u = rxt_auth_unfold [OF cr at]
  have direct: ?thesis if "w' = w1" "res = fst (finish ev c (r, w1)) \<or> r \<noteq> Inr True"
  proof -
    from attempt_challenge [OF at i(1) _ _ ch] i(2) ans that(1)
    have "r = Inr True" "sess_cache w1 (hashed_auth_user c) = Some h" by simp_all
    with that show ?thesis by (simp add: finish_pending)
  qed
  show ?thesis
  proof (cases "\<exists>st. r = Inl (HTTPError st)")
    case False
    with u run have f: "finish ev c (r, w1) = (res, w')" by simp
    from finish_frame [OF f] f show ?thesis by (intro direct) simp_all
  next
    case True
    show ?thesis
    proof (cases "auth_type = ''apiKeyCredentials''")
      case False
      with u run True show ?thesis by (intro direct) auto
    next
      case api: True
      show ?thesis
      proof (cases "passwordCredentials (auth_payload c)")
        case (Inl e)
        with u run True api show ?thesis by (intro direct) auto
      next
        case (Inr cr2)
        obtain body2 where cr2: "cr2 = (''passwordCredentials'', body2)"
          using passwordCredentials_kind [OF Inr] by (cases cr2) simp
        let ?c' = "c\<lparr>rxt_auth_payload := Some cr2\<rparr>"
        from u run True api Inr have run2: "rxt_auth ev ?c' w1 = (res, w')" by simp
        obtain r2 w2 where at2: "priv_rxt_auth ev ?c' body2 ''passwordCredentials'' w1 = (r2, w2)"
          by (cases "priv_rxt_auth ev ?c' body2 ''passwordCredentials'' w1")
        from rxt_auth_last [of ?c' "''passwordCredentials''" body2 ev w1 r2 w2] at2 cr2 run2
        have l: "(res, w') = (if \<exists>st. r2 = Inl (HTTPError st)
                   then (Inl (Unauthorized (AuthFailed ''passwordCredentials'')), w2)
                   else finish ev ?c' (r2, w2))" by simp
        then have w': "w' = w2"
          by (auto split: if_splits dest: finish_frame [OF sym])
        from attempt_spec [OF at] True
        have p1: "posts w1 = posts w @ [(body, rxt_headers w)]" by auto
        from priv_rxt_auth_frame [OF at2]
        have p2: "posts w2 = posts w1 \<or> posts w2 = posts w1 @ [(body2, rxt_headers w1)]"
          by simp
        show ?thesis
        proof (cases "i < length (posts w1)")
          case first: True
          with p2 w' have "posts w' ! i = posts w1 ! i" by (auto simp: nth_append)
          with attempt_challenge [OF at i(1) first _ ch] ans True show ?thesis
            by auto
        next
          case False
          then have "length (posts w1) \<le> i" by simp
          from attempt_challenge [OF at2 this _ _ ch] i(2) ans w'
          have "r2 = Inr True" "sess_cache w2 (hashed_auth_user c) = Some h" by simp_all
          with l w' show ?thesis by (simp add: finish_pending)
        qed
      qed
    qed
  qed
qed

subsection \<open>Frames and failures\<close>

text \<open>Selection reads the session cache and writes the shared headers, nothing else.\<close>

lemma enter_frame:
  assumes "enter c w = (r, w1)"
  shows "posts w1 = posts w \<and> sess_cache w1 = sess_cache w \<and> srv_cache w1 = srv_cache w
       \<and> environ w1 = environ w \<and> ticks w1 = ticks w
       \<and> (\<forall>k. rxt_headers w k \<noteq> None \<longrightarrow> rxt_headers w1 k \<noteq> None)"
  using assms
  by (auto simp: enter_def Let_def split: sum.splits option.splits prod.splits)

lemma with_credentials_frame:
  assumes "with_credentials ev w p = (r, w1)"
  shows "posts w1 = posts w \<and> sess_cache w1 = sess_cache w \<and> srv_cache w1 = srv_cache w
       \<and> environ w1 = environ w \<and> ticks w1 = ticks w
       \<and> (\<forall>k. rxt_headers w k \<noteq> None \<longrightarrow> rxt_headers w1 k \<noteq> None)"
proof (cases "init ev p")
  case (Inl e)
  with assms show ?thesis by (simp add: with_credentials_def)
next
  case (Inr c)
  with assms have "enter c w = (r, w1)" by (simp add: with_credentials_def)
  from enter_frame [OF this] show ?thesis .
qed

lemma with_credentials_user:
  assumes "with_credentials ev w p = (Inr c, w1)"
  shows "\<exists>u. priv_username p = Inr (JStr u) \<and> hashed_auth_user c = sha224 ev u
           \<and> hashed_auth_payload c = sha224 ev (json_dumps ev p) \<and> auth_payload c = p"
proof -
  from with_credentials_Inr [OF assms] obtain c0 where i: "init ev p = Inr c0"
    and c: "c = c0\<lparr>session_id := priv_sessionID w c0, rxt_auth_payload := rxt_auth_payload c\<rparr>"
    by blast
  from c have "hashed_auth_user c = hashed_auth_user c0"
    "hashed_auth_payload c = hashed_auth_payload c0" "auth_payload c = auth_payload c0"
    by (metis creds.select_convs creds.surjective creds.update_convs)+
  with init_Inr [OF i] show ?thesis by auto
qed

text \<open>The ways a call of \<open>rxt_auth\<close> can end.\<close>

lemma rxt_auth_cases [consumes 1, case_names NoPayload Done Fatal NoPassword Retry]:
  assumes "rxt_auth ev c w = (res, w')"
  obtains
    (NoPayload) "rxt_auth_payload c = None" "res = Inl TypeError" "w' = w"
  | (Done) auth_type body r where
      "rxt_auth_payload c = Some (auth_type, body)"
      "priv_rxt_auth ev c body auth_type w = (r, w')"
      "\<forall>st. r \<noteq> Inl (HTTPError st)" "finish ev c (r, w') = (res, w')"
  | (Fatal) auth_type body st where
      "rxt_auth_payload c = Some (auth_type, body)" "auth_type \<noteq> ''apiKeyCredentials''"
      "priv_rxt_auth ev c body auth_type w = (Inl (HTTPError st), w')"
      "res = Inl (Unauthorized (AuthFailed auth_type))"
  | (NoPassword) body st e where
      "rxt_auth_payload c = Some (''apiKeyCredentials'', body)"
      "priv_rxt_auth ev c body ''apiKeyCredentials'' w = (Inl (HTTPError st), w')"
      "passwordCredentials (auth_payload c) = Inl e" "res = Inl e"
  | (Retry) body st body2 w1 where
      "rxt_auth_payload c = Some (''apiKeyCredentials'', body)"
      "priv_rxt_auth ev c body ''apiKeyCredentials'' w = (Inl (HTTPError st), w1)"
      "passwordCredentials (auth_payload c) = Inr (''passwordCredentials'', body2)"
      "rxt_auth ev (c\<lparr>rxt_auth_payload := Some (''passwordCredentials'', body2)\<rparr>) w1 = (res, w')"
proof (cases "rxt_auth_payload c")
  case None
  with rxt_auth_None [OF None, of ev w] assms NoPayload show ?thesis by simp
next
  case (Some cr)
  obtain auth_type body where cr: "rxt_auth_payload c = Some (auth_type, body)"
    using Some by (cases cr) simp
  obtain r w1 where at: "priv_rxt_auth ev c body auth_type w = (r, w1)"
    by (cases "priv_rxt_auth ev c body auth_type w")
  note u = rxt_auth_unfold [OF cr at]
  show ?thesis
  proof (cases "\<exists>st. r = Inl (HTTPError st)")
    case False
    with u assms have f: "finish ev c (r, w1) = (res, w')" by simp
    from finish_frame [OF f] f cr at False Done show ?thesis by simp
  next
    case True
    then obtain st where st: "r = Inl (HTTPError st)" by blast
    show ?thesis
    proof (cases "auth_type = ''apiKeyCredentials''")
      case False
      with u assms st cr at Fatal show ?thesis by simp
    next
      case api: True
      show ?thesis
      proof (cases "passwordCredentials (auth_payload c)")
        case (Inl e)
        with u assms st api cr at NoPassword show ?thesis by simp
      next
        case (Inr cr2)
        obtain body2 where cr2: "cr2 = (''passwordCredentials'', body2)"
          using passwordCredentials_kind [OF Inr] by (cases cr2) simp
        with u assms st api cr at Inr Retry show ?thesis by simp
      qed
    qed
  qed
qed
















lemma rxt_auth_last_headers:
  assumes "rxt_auth ev c w = (res, w')"
      and "\<exists>body. rxt_auth_payload c = Some (''passwordCredentials'', body)"
  shows "rxt_headers w' = rxt_headers w"
  using assms(1)
  by (cases rule: rxt_auth_cases) (use assms(2) in \<open>auto dest: priv_rxt_auth_frame\<close>)

lemma rxt_auth_headers:
  assumes "rxt_auth ev c w = (res, w')"
  shows "rxt_headers w' = rxt_headers w"
  using assms
proof (cases rule: rxt_auth_cases)
  case (Retry body st body2 w1)
  from rxt_auth_last_headers [OF Retry(4)] priv_rxt_auth_frame [OF Retry(2)]
  show ?thesis by simp
qed (auto dest: priv_rxt_auth_frame)

subsection \<open>A successful call\<close>

lemma catalog_fields_truthy: "catalog_fields ev cat = Inr v \<Longrightarrow> truthy cat"
  by (cases "getitem cat ''access''")
     (auto simp: catalog_fields_def and_then_def dest!: getitem_Inr)

lemma parse_service_catalog_truthy: "parse_service_catalog ev cat en = Inr en' \<Longrightarrow> truthy cat"
  by (cases "catalog_fields ev cat")
     (auto simp: parse_service_catalog_def split: exc.splits dest: catalog_fields_truthy)

lemma set_federation_env_idem:
  "set_federation_env u e d tn ti r (set_federation_env u e d tn ti r en)
     = set_federation_env u e d tn ti r en"
  by (rule ext) (simp add: set_federation_env_def set_if_def)

text \<open>Translating the same catalog a second time changes nothing.\<close>

lemma parse_service_catalog_idem:
  assumes "parse_service_catalog ev cat en = Inr en'"
  shows "parse_service_catalog ev cat en' = Inr en'"
proof (cases "catalog_fields ev cat")
  case (Inl e)
  with assms show ?thesis by (auto simp: parse_service_catalog_def split: exc.splits)
next
  case (Inr v)
  with assms show ?thesis
    by (auto simp: parse_service_catalog_def set_federation_env_idem split: prod.splits)
qed

lemma parse_service_catalog_any_env:
  assumes "parse_service_catalog ev cat en = Inr en'"
  shows "\<exists>en2'. parse_service_catalog ev cat en2 = Inr en2'"
proof (cases "catalog_fields ev cat")
  case (Inl e)
  with assms show ?thesis by (auto simp: parse_service_catalog_def split: exc.splits)
next
  case (Inr v)
  then show ?thesis by (auto simp: parse_service_catalog_def split: prod.splits)
qed

lemma return_auth_handler_det:
  assumes "return_auth_handler ev c w = (r, w')"
      and "auth_payload c2 = auth_payload c" "environ w2 = environ w"
  shows "return_auth_handler ev c2 w2 = (r, w2)"
  using assms
  by (auto simp: return_auth_handler_def split: sum.splits if_splits)

lemma enter_cong:
  assumes "sess_cache w2 = sess_cache w"
  shows "fst (enter c w2) = fst (enter c w)"
proof -
  from assms have "priv_sessionID w2 c = priv_sessionID w c"
    by (simp add: priv_sessionID_def)
  then show ?thesis
    by (auto simp: enter_def Let_def split: sum.splits option.splits prod.splits)
qed

lemma with_credentials_cong:
  assumes "sess_cache w2 = sess_cache w"
  shows "fst (with_credentials ev w2 p) = fst (with_credentials ev w p)"
  using enter_cong [OF assms] by (simp add: with_credentials_def split: sum.splits)

text \<open>An attempt that returns \<open>False\<close> leaves the translated catalog in the cache.\<close>

lemma attempt_success:
  assumes "priv_rxt_auth ev c body auth_type w = (Inr False, w')"
  shows "sess_cache w' = sess_cache w
       \<and> (\<exists>cat e0. srv_cache w' (hashed_auth_payload c) = Some cat
             \<and> parse_service_catalog ev cat e0 = Inr (environ w'))"
proof -
  obtain r0 w0 where cc: "cached_catalog ev c w = (r0, w0)" by (cases "cached_catalog ev c w")
  note f = cached_catalog_frame [OF cc]
  show ?thesis
  proof (cases r0)
    case (Inl e)
    with cc assms show ?thesis by (simp add: priv_rxt_auth_def)
  next
    case (Inr hit)
    show ?thesis
    proof (cases hit)
      case True
      with Inr cc assms have "w' = w0" by (simp add: priv_rxt_auth_def)
      with cached_catalog_hit [of ev c w w0] cc Inr True f show ?thesis by auto
    next
      case False
      with Inr cc assms have ex: "exchange ev c body auth_type w0 = (Inr False, w')"
        by (simp add: priv_rxt_auth_def)
      from exchange_success [OF ex] f show ?thesis by auto
    qed
  qed
qed

lemma attempt_HTTPError_sess:
  assumes "priv_rxt_auth ev c body auth_type w = (Inl (HTTPError st), w1)"
  shows "sess_cache w1 = sess_cache w"
proof -
  from priv_rxt_auth_HTTPError [OF assms] obtain w0
    where cc: "cached_catalog ev c w = (Inr False, w0)" 
      and w1: "w1 = w0\<lparr>posts := posts w @ [(body, rxt_headers w)]\<rparr>" by blast
  from cached_catalog_frame [OF cc] w1 show ?thesis by simp
qed

lemma rxt_auth_last_success:
  assumes "rxt_auth ev c w = (Inr (AuthHandlerResponse True d), w')"
      and "\<exists>body. rxt_auth_payload c = Some (''passwordCredentials'', body)"
  shows "sess_cache w' = sess_cache w
       \<and> (\<exists>cat e0. srv_cache w' (hashed_auth_payload c) = Some cat
             \<and> parse_service_catalog ev cat e0 = Inr (environ w'))
       \<and> return_auth_handler ev c w' = (Inr (AuthHandlerResponse True d), w')"
  using assms(1)
proof (cases rule: rxt_auth_cases)
  case (Done auth_type body r)
  from Done(4) have "r = Inr False"
    and "return_auth_handler ev c w' = (Inr (AuthHandlerResponse True d), w')"
    by (auto simp: finish_def split: sum.splits if_splits)
  with attempt_success [of ev c body auth_type w w'] Done(2) show ?thesis by simp
qed (use assms(2) in auto)

lemma rxt_auth_success:
  assumes "rxt_auth ev c w = (Inr (AuthHandlerResponse True d), w')"
  shows "sess_cache w' = sess_cache w
       \<and> (\<exists>cat e0. srv_cache w' (hashed_auth_payload c) = Some cat
             \<and> parse_service_catalog ev cat e0 = Inr (environ w'))
       \<and> return_auth_handler ev c w' = (Inr (AuthHandlerResponse True d), w')"
  using assms
proof (cases rule: rxt_auth_cases)
  case (Done auth_type body r)
  from Done(4) have "r = Inr False"
    and "return_auth_handler ev c w' = (Inr (AuthHandlerResponse True d), w')"
    by (auto simp: finish_def split: sum.splits if_splits)
  with attempt_success [of ev c body auth_type w w'] Done(2) show ?thesis by simp
next
  case (Retry body st body2 w1)
  let ?c' = "c\<lparr>rxt_auth_payload := Some (''passwordCredentials'', body2)\<rparr>"
  from rxt_auth_last_success [OF Retry(4)]
  have "sess_cache w' = sess_cache w1"
    and "\<exists>cat e0. srv_cache w' (hashed_auth_payload c) = Some cat
             \<and> parse_service_catalog ev cat e0 = Inr (environ w')"
    and "return_auth_handler ev ?c' w' = (Inr (AuthHandlerResponse True d), w')"
    by simp_all
  with attempt_HTTPError_sess [OF Retry(2)]
    return_auth_handler_det [of ev ?c' w' _ w' c w']
  show ?thesis by simp
qed auto

subsection \<open>The result of the translator\<close>








subsection \<open>Cached entries that are not valid catalogs\<close>

text \<open>The three ways the cache block treats an entry that is not a valid catalog: an
  expired one and one without the \<open>expires\<close> key are deleted, one whose \<open>expires\<close> the
  parser rejects raises and stays.\<close>

lemma cached_catalog_expired:
  assumes "srv_cache w (hashed_auth_payload c) = Some cat" "truthy cat"
      and "getitem3 cat ''access'' ''token'' ''expires'' = Inr (JStr s)"
      and "parse_time ev s = Some t" "t \<le> clock ev (ticks w)"
  shows "cached_catalog ev c w =
           (Inr False, w\<lparr>ticks := Suc (ticks w),
                         srv_cache := (srv_cache w)(hashed_auth_payload c := None)\<rparr>)"
  using assms by (simp add: cached_catalog_def Let_def)

lemma cached_catalog_no_expiry:
  assumes "srv_cache w (hashed_auth_payload c) = Some cat" "truthy cat"
      and "getitem3 cat ''access'' ''token'' ''expires'' = Inl (KeyError k)"
  shows "cached_catalog ev c w =
           (Inr False, w\<lparr>srv_cache := (srv_cache w)(hashed_auth_payload c := None)\<rparr>)"
  using assms by (simp add: cached_catalog_def)

lemma cached_catalog_unparsable:
  assumes "srv_cache w (hashed_auth_payload c) = Some cat" "truthy cat"
      and "getitem3 cat ''access'' ''token'' ''expires'' = Inr (JStr s)"
      and "parse_time ev s = None"
  shows "cached_catalog ev c w = (Inl ParserError, w)"
  using assms by (simp add: cached_catalog_def)

lemma rxt_auth_unparsable:
  assumes "srv_cache w (hashed_auth_payload c) = Some cat" "truthy cat"
      and "getitem3 cat ''access'' ''token'' ''expires'' = Inr (JStr s)"
      and "parse_time ev s = None" "rxt_auth_payload c \<noteq> None"
  shows "rxt_auth ev c w = (Inl ParserError, w)"
proof -
  from assms(5) obtain auth_type body where cr: "rxt_auth_payload c = Some (auth_type, body)"
    by auto
  from cached_catalog_unparsable [OF assms(1-4)]
  have "priv_rxt_auth ev c body auth_type w = (Inl ParserError, w)"
    by (simp add: priv_rxt_auth_def)
  from rxt_auth_unfold [OF cr this] show ?thesis by (simp add: finish_def)
qed

subsection \<open>How the worlds of the examples arise\<close>

text \<open>
  The header of any 401 is cached, with or without a session id in it, and a catalog
  is cached whatever its expiry is: the translator does not read it.
\<close>

lemma plain_401_header_is_cached:
  "fst (authenticate (demo_env plain_401_upstream) empty_world pl_password)
     = Inr (AuthHandlerResponse False None)
   \<and> sess_cache (snd (authenticate (demo_env plain_401_upstream) empty_world pl_password))
       ''sha224:alice'' = Some keystone_header
   \<and> sess_cache (world_with_header keystone_header) ''sha224:alice'' = Some keystone_header"
  by code_simp

lemma unparsable_expiry_is_cached:
  "srv_cache (snd (authenticate (demo_env bad_expiry_upstream) empty_world pl_password))
     (''sha224:'' @ demo_dumps pl_password)
   = Some (demo_catalog [] demo_roles)
   \<and> srv_cache (world_with_catalog pl_password (demo_catalog [] demo_roles))
       (''sha224:'' @ demo_dumps pl_password)
     = Some (demo_catalog [] demo_roles)"
  by code_simp

section \<open>The claims\<close>

subsection \<open>C1: the priority order of credential selection\<close>

text \<open>
  C1 as stated: a present passcode together with a cached SessionHeader selects the
  passcode kind and attaches the session id as \<open>X-SessionId\<close>. It fails when the cached
  header holds no \<^verbatim>\<open>sessionId='...'\<close>: the upstream's plain 401 header is cached like
  any other, no session id is extracted from it, and the password kind is selected
  with no header attached.
\<close>

theorem C1_counterexample:
  "priv_passcode pl_passcode = Inr (JStr ''123456'')
   \<and> sess_cache (world_with_header keystone_header) (sha224 (demo_env no_upstream) ''alice'')
       = Some keystone_header
   \<and> selected_kind (demo_env no_upstream) (world_with_header keystone_header) pl_passcode
       = Inr ''passwordCredentials''
   \<and> rxt_headers (snd (with_credentials (demo_env no_upstream)
        (world_with_header keystone_header) pl_passcode)) ''X-SessionId'' = None"
  by code_simp

text \<open>
  C1 as amended: for a payload the constructor accepts, with passcode \<open>pc\<close> (\<open>None\<close>
  when absent): if the passcode is non-empty and a session id \<open>s\<close> is extracted from the
  cached SessionHeader, the kind is passcode and \<open>X-SessionId\<close> is set to \<open>s\<close>; otherwise,
  for a password that is a string, the kind is apiKey when the password matches one of
  the patterns of 32, 40 or 64 hexadecimal characters and password when it does not,
  and the headers are left as they were.
\<close>

theorem C1_selection_priority:
  assumes "init ev p = Inr c" and "priv_passcode p = Inr pc"
  shows "(truthy pc \<and> priv_sessionID w c = Some s \<longrightarrow>
            selected_kind ev w p = Inr ''passcodeCredentials'' \<and>
            rxt_headers (snd (with_credentials ev w p)) = (rxt_headers w)(''X-SessionId'' \<mapsto> s))
       \<and> (\<not> (truthy pc \<and> priv_sessionID w c \<noteq> None) \<and> priv_password p = Inr (JStr pw) \<longrightarrow>
            selected_kind ev w p =
              Inr (if hex_match 32 pw \<or> hex_match 40 pw \<or> hex_match 64 pw
                   then ''apiKeyCredentials'' else ''passwordCredentials'') \<and>
            rxt_headers (snd (with_credentials ev w p)) = rxt_headers w)"
proof -
  from init_Inr [OF assms(1)] obtain u where c: "auth_payload c = p" "rxt_auth_payload c = None"
    and u: "priv_username p = Inr (JStr u)" by blast
  have wc: "with_credentials ev w p = enter c w"
    using assms(1) by (simp add: with_credentials_def)
  have first: "selected_kind ev w p = Inr ''passcodeCredentials'' \<and>
            rxt_headers (snd (with_credentials ev w p)) = (rxt_headers w)(''X-SessionId'' \<mapsto> s)"
    if "truthy pc" "priv_sessionID w c = Some s"
    using enter_passcode [of c pc w s] that assms(2) c
    by (simp add: selected_kind_def wc)
  have second: "selected_kind ev w p =
              Inr (if hex_match 32 pw \<or> hex_match 40 pw \<or> hex_match 64 pw
                   then ''apiKeyCredentials'' else ''passwordCredentials'') \<and>
            rxt_headers (snd (with_credentials ev w p)) = rxt_headers w"
    if "\<not> (truthy pc \<and> priv_sessionID w c \<noteq> None)" "priv_password p = Inr (JStr pw)"
    using enter_no_passcode [of c pc w] that assms(2) c u
    by (simp add: selected_kind_def wc hash_types_match)
  from first second show ?thesis by blast
qed

theorem C1_selection_priority_witness:
  "selected_kind (demo_env no_upstream) (world_with_header mfa_header) pl_passcode
     = Inr ''passcodeCredentials''
   \<and> rxt_headers (snd (with_credentials (demo_env no_upstream) (world_with_header mfa_header)
        pl_passcode)) ''X-SessionId'' = Some ''abc123''
   \<and> selected_kind (demo_env no_upstream) empty_world pl_apikey = Inr ''apiKeyCredentials''
   \<and> selected_kind (demo_env no_upstream) empty_world pl_password = Inr ''passwordCredentials''"
proof -
  let ?ev = "demo_env no_upstream"
  have i1: "init ?ev pl_passcode = Inr (demo_creds pl_passcode)" by code_simp
  have p1: "priv_passcode pl_passcode = Inr (JStr ''123456'')" by code_simp
  have s1: "priv_sessionID (world_with_header mfa_header) (demo_creds pl_passcode) = Some ''abc123''"
    by code_simp
  have i2: "init ?ev pl_apikey = Inr (demo_creds pl_apikey)" by code_simp
  have p2: "priv_passcode pl_apikey = Inr JNull" by code_simp
  have w2: "priv_password pl_apikey = Inr (JStr ''deadbeefdeadbeefdeadbeefdeadbeef'')" by code_simp
  have h2: "hex_match 32 ''deadbeefdeadbeefdeadbeefdeadbeef''" by code_simp
  have i3: "init ?ev pl_password = Inr (demo_creds pl_password)" by code_simp
  have p3: "priv_passcode pl_password = Inr JNull" by code_simp
  have w3: "priv_password pl_password = Inr (JStr ''secret'')" by code_simp
  have h3: "\<not> (hex_match 32 ''secret'' \<or> hex_match 40 ''secret'' \<or> hex_match 64 ''secret'')"
    by code_simp
  from C1_selection_priority [OF i1 p1, of "world_with_header mfa_header" "''abc123''"] s1
  have a: "selected_kind ?ev (world_with_header mfa_header) pl_passcode = Inr ''passcodeCredentials''"
    and b: "rxt_headers (snd (with_credentials ?ev (world_with_header mfa_header) pl_passcode))
              ''X-SessionId'' = Some ''abc123''"
    by simp_all
  from C1_selection_priority [OF i2 p2, of empty_world _ "''deadbeefdeadbeefdeadbeefdeadbeef''"] w2 h2
  have c: "selected_kind ?ev empty_world pl_apikey = Inr ''apiKeyCredentials''"
    by simp
  from C1_selection_priority [OF i3 p3, of empty_world _ "''secret''"] w3 h3
  have d: "selected_kind ?ev empty_world pl_password = Inr ''passwordCredentials''"
    by simp
  from a b c d show ?thesis by blast
qed

subsection \<open>C2: the fallback from the API key to the password\<close>

text \<open>
  C2 as stated: after an API-key exchange that fails with an HTTP error, one retry
  with the password kind starts at the upstream exchange, and its failure is fatal. The
  retry is a call of the whole of \<open>rxt_auth\<close>: with a session id cached for the user the
  shortcut for a pending session answers it, so against an upstream that fails every
  request only the API-key request is posted and the outcome is the pending-MFA
  response, not a failure.
\<close>

theorem C2_counterexample:
  "selected_kind (demo_env failing_upstream) (world_with_header mfa_header) pl_apikey
     = Inr ''apiKeyCredentials''
   \<and> map fst (posts (snd (authenticate (demo_env failing_upstream)
        (world_with_header mfa_header) pl_apikey)))
     = [apikey_body (JStr ''alice'') (JStr ''deadbeefdeadbeefdeadbeefdeadbeef'')]
   \<and> fst (authenticate (demo_env failing_upstream) (world_with_header mfa_header) pl_apikey)
     = Inr (AuthHandlerResponse False None)"
  by code_simp

text \<open>
  C2 as amended: when the selected kind is apiKey and its attempt ends in an HTTP
  error, that attempt has posted exactly the API-key request, and \<open>rxt_auth\<close> is run
  once more with the password credentials. If a session id is held, the retry
  returns the pending-MFA response and posts nothing; otherwise it posts exactly the
  password request, and when that request is answered with an HTTP error status the
  call ends with \<open>Unauthorized\<close>. No third request is posted in either case.
\<close>

theorem C2_fallback_once:
  assumes dom: "getitem3 p ''user'' ''domain'' ''name'' = Inr (JStr ''rackspace_cloud_domain'')"
      and sel: "with_credentials ev w0 p = (Inr c, w)"
      and kind: "rxt_auth_payload c = Some (''apiKeyCredentials'', body)"
      and fail: "priv_rxt_auth ev c body ''apiKeyCredentials'' w = (Inl (HTTPError st), w1)"
  shows "\<exists>pbody. passwordCredentials p = Inr (''passwordCredentials'', pbody)
         \<and> posts w1 = posts w0 @ [(body, rxt_headers w0)]
         \<and> (if has_session c
            then authenticate ev w0 p = (Inr (AuthHandlerResponse False None), w1)
            else posts (snd (authenticate ev w0 p)) = posts w1 @ [(pbody, rxt_headers w1)]
               \<and> (\<forall>rs. answer ev w1 pbody = Responded rs \<and> challenge rs = None
                        \<and> is_http_error (status_code rs)
                    \<longrightarrow> authenticate ev w0 p =
                          (Inl (Unauthorized (AuthFailed ''passwordCredentials'')),
                           w1\<lparr>posts := posts w1 @ [(pbody, rxt_headers w1)]\<rparr>)))"
proof -
  from with_credentials_Inr [OF sel] kind obtain c0 u pw
    where i: "init ev p = Inr c0"
      and c: "c = c0\<lparr>session_id := priv_sessionID w0 c0, rxt_auth_payload := rxt_auth_payload c\<rparr>"
      and w: "w = w0" and u: "priv_username p = Inr u" and pw: "priv_password p = Inr (JStr pw)"
    by (auto split: if_splits)
  from init_Inr [OF i] c have ap: "auth_payload c = p"
    by (metis creds.select_convs(1) creds.surjective creds.update_convs(4,5))
  let ?pbody = "password_body u (JStr pw)"
  let ?c' = "c\<lparr>rxt_auth_payload := Some (''passwordCredentials'', ?pbody)\<rparr>"
  have pc: "passwordCredentials p = Inr (''passwordCredentials'', ?pbody)"
    using credentials_ok(2) [OF u pw] by (simp add: password_body_def)
  from priv_rxt_auth_HTTPError [OF fail] w
  have p1: "posts w1 = posts w0 @ [(body, rxt_headers w0)]" by auto
  have a: "authenticate ev w0 p = rxt_auth ev c w"
    using authenticate_rackspace [OF dom] sel by simp
  have r1: "rxt_auth ev c w = rxt_auth ev ?c' w1"
    using rxt_auth_unfold [OF kind fail] pc ap by simp
  have ex: "priv_rxt_auth ev ?c' ?pbody ''passwordCredentials'' w1
              = exchange ev ?c' ?pbody ''passwordCredentials'' w1"
    by (rule priv_rxt_auth_after_HTTPError [OF fail]) simp
  have hs: "has_session ?c' = has_session c" by (simp add: has_session_def)
  have last: "rxt_auth ev ?c' w1 =
           (if \<exists>st. r = Inl (HTTPError st)
            then (Inl (Unauthorized (AuthFailed ''passwordCredentials'')), w2)
            else finish ev ?c' (r, w2))"
    if "exchange ev ?c' ?pbody ''passwordCredentials'' w1 = (r, w2)" for r w2
    using rxt_auth_last [of ?c' "''passwordCredentials''" ?pbody ev w1 r w2] that ex by simp
  show ?thesis
  proof (cases "has_session c")
    case True
    from exchange_shortcut [of ?c' "''passwordCredentials''" ev ?pbody w1] True hs
    have "exchange ev ?c' ?pbody ''passwordCredentials'' w1 = (Inr True, w1)" by simp
    from last [OF this] have "rxt_auth ev ?c' w1 = (Inr (AuthHandlerResponse False None), w1)"
      by (simp add: finish_def)
    with a r1 pc p1 True show ?thesis by auto
  next
    case False
    obtain r w2 where e2: "exchange ev ?c' ?pbody ''passwordCredentials'' w1 = (r, w2)"
      by (cases "exchange ev ?c' ?pbody ''passwordCredentials'' w1")
    from exchange_posts [OF _ e2] False hs
    have p2: "posts w2 = posts w1 @ [(?pbody, rxt_headers w1)]" by simp
    have "posts (snd (rxt_auth ev ?c' w1)) = posts w2"
    proof (cases "\<exists>st. r = Inl (HTTPError st)")
      case True
      with last [OF e2] show ?thesis by simp
    next
      case nf: False
      obtain out w3 where f: "finish ev ?c' (r, w2) = (out, w3)"
        by (cases "finish ev ?c' (r, w2)")
      then have "w3 = w2"
        by (auto simp: finish_def split: sum.splits if_splits dest: return_auth_handler_frame)
      with last [OF e2] nf f show ?thesis by simp
    qed
    with p2 a r1 have posts: "posts (snd (authenticate ev w0 p)) = posts w1 @ [(?pbody, rxt_headers w1)]"
      by simp
    have fatal: "authenticate ev w0 p =
                   (Inl (Unauthorized (AuthFailed ''passwordCredentials'')),
                    w1\<lparr>posts := posts w1 @ [(?pbody, rxt_headers w1)]\<rparr>)"
      if "answer ev w1 ?pbody = Responded rs" "challenge rs = None" "is_http_error (status_code rs)"
      for rs
    proof -
      from exchange_HTTPErrorI [of ?c' "''passwordCredentials''" ev w1 ?pbody rs] that False hs
      have "exchange ev ?c' ?pbody ''passwordCredentials'' w1 =
              (Inl (HTTPError (status_code rs)), w1\<lparr>posts := posts w1 @ [(?pbody, rxt_headers w1)]\<rparr>)"
        by simp
      from last [OF this] a r1 show ?thesis by simp
    qed
    from pc p1 False posts fatal show ?thesis by auto
  qed
qed

theorem C2_fallback_once_witness:
  "fst (authenticate (demo_env failing_upstream) (world_with_header mfa_header) pl_apikey)
     = Inr (AuthHandlerResponse False None)
   \<and> fst (authenticate (demo_env failing_upstream) empty_world pl_apikey)
     = Inl (Unauthorized (AuthFailed ''passwordCredentials''))
   \<and> length (posts (snd (authenticate (demo_env failing_upstream) empty_world pl_apikey))) = 2"
proof -
  let ?ev = "demo_env failing_upstream"
  let ?body = "apikey_body (JStr ''alice'') (JStr ''deadbeefdeadbeefdeadbeefdeadbeef'')"
  let ?cr = "(''apiKeyCredentials'', ?body)"
  have dom: "getitem3 pl_apikey ''user'' ''domain'' ''name'' = Inr (JStr ''rackspace_cloud_domain'')"
    by code_simp
  have any: "answer ?ev w b = Responded \<lparr>status_code = 500, www_authenticate = None, json_body = None\<rparr>"
    for w b by (simp add: answer_def demo_env_def failing_upstream_def respond_def)
  have ch: "challenge \<lparr>status_code = 500, www_authenticate = None, json_body = None\<rparr> = None"
    by (simp add: challenge_def)
  have he: "is_http_error (status_code \<lparr>status_code = 500, www_authenticate = None, json_body = None\<rparr>)"
    by (simp add: is_http_error_def)
  \<comment> \<open>with a cached session\<close>
  let ?wA = "world_with_header mfa_header"
  let ?cA = "selected_creds pl_apikey (Some ''abc123'') ?cr"
  have selA: "fst (with_credentials ?ev ?wA pl_apikey) = Inr ?cA" by code_simp
  have failA: "fst (priv_rxt_auth ?ev ?cA ?body ''apiKeyCredentials'' (snd (with_credentials ?ev ?wA pl_apikey)))
                 = Inl (HTTPError 500)" by code_simp
  have hsA: "has_session ?cA" by code_simp
  have kA: "rxt_auth_payload ?cA = Some ?cr" by (simp add: selected_creds_def)
  from C2_fallback_once [OF dom _ kA, of ?ev ?wA "snd (with_credentials ?ev ?wA pl_apikey)" 500
      "snd (priv_rxt_auth ?ev ?cA ?body ''apiKeyCredentials'' (snd (with_credentials ?ev ?wA pl_apikey)))"]
    selA failA hsA
  have a: "fst (authenticate ?ev ?wA pl_apikey) = Inr (AuthHandlerResponse False None)"
    by (auto simp: prod_eq_iff)
  \<comment> \<open>without one\<close>
  let ?cB = "selected_creds pl_apikey None ?cr"
  have selB: "fst (with_credentials ?ev empty_world pl_apikey) = Inr ?cB" by code_simp
  have failB: "fst (priv_rxt_auth ?ev ?cB ?body ''apiKeyCredentials'' (snd (with_credentials ?ev empty_world pl_apikey)))
                 = Inl (HTTPError 500)" by code_simp
  have hsB: "\<not> has_session ?cB" by code_simp
  have kB: "rxt_auth_payload ?cB = Some ?cr" by (simp add: selected_creds_def)
  have p1: "length (posts (snd (priv_rxt_auth ?ev ?cB ?body ''apiKeyCredentials'' (snd (with_credentials ?ev empty_world pl_apikey))))) = 1"
    by code_simp
  from C2_fallback_once [OF dom _ kB, of ?ev empty_world "snd (with_credentials ?ev empty_world pl_apikey)" 500
      "snd (priv_rxt_auth ?ev ?cB ?body ''apiKeyCredentials'' (snd (with_credentials ?ev empty_world pl_apikey)))"]
    selB failB hsB any ch he p1
  have b: "fst (authenticate ?ev empty_world pl_apikey)
             = Inl (Unauthorized (AuthFailed ''passwordCredentials''))"
    and c: "length (posts (snd (authenticate ?ev empty_world pl_apikey))) = 2"
    by (auto simp: prod_eq_iff)
  from a b c show ?thesis by blast
qed

subsection \<open>C3: cached catalogs that are expired or malformed\<close>

text \<open>
  C3: an expired cached catalog and one without the \<open>expires\<close> key are deleted and the
  call goes on (\<open>cached_catalog_expired\<close>, \<open>cached_catalog_no_expiry\<close>). A cached catalog
  whose \<open>expires\<close> the date parser rejects is not: \<open>parser.parse\<close> stands outside the
  \<open>try\<close> block, its error ends the call, the entry stays in the cache and nothing is
  posted (\<open>rxt_auth_unparsable\<close>). Here the cached catalog has the empty string as its
  expiry.
\<close>

theorem C3_unparsable_expiry:
  "parse_time (demo_env catalog_upstream) [] = None
   \<and> fst (authenticate (demo_env catalog_upstream)
        (world_with_catalog pl_password (demo_catalog [] demo_roles)) pl_password)
     = Inl ParserError
   \<and> srv_cache (snd (authenticate (demo_env catalog_upstream)
        (world_with_catalog pl_password (demo_catalog [] demo_roles)) pl_password))
       (sha224 (demo_env catalog_upstream) (json_dumps (demo_env catalog_upstream) pl_password))
     = Some (demo_catalog [] demo_roles)
   \<and> length (posts (snd (authenticate (demo_env catalog_upstream)
        (world_with_catalog pl_password (demo_catalog [] demo_roles)) pl_password))) = 0"
  by code_simp

subsection \<open>C4: the MFA challenge\<close>

text \<open>
  C4: whenever a request posted during a call of \<open>authenticate\<close> is answered with
  status 401 and a \<open>WWW-Authenticate\<close> header, the call does not fail: it returns the
  auth-handler response with status \<open>False\<close> and no response data, and the header's value
  is in the session cache under the digest of the username alone. The requests of the
  call are those at the positions \<open>length (posts w) \<le> i < length (posts w')\<close> of the log.
\<close>

theorem C4_mfa_challenge:
  assumes run: "authenticate ev w p = (res, w')"
      and i: "length (posts w) \<le> i" "i < length (posts w')"
      and ans: "upstream ev i (fst (posts w' ! i)) (snd (posts w' ! i)) = Responded rs"
      and st: "status_code rs = 401" and hd: "www_authenticate rs = Some h"
  shows "res = Inr (AuthHandlerResponse False None)
       \<and> (\<exists>u. priv_username p = Inr (JStr u) \<and> sess_cache w' (sha224 ev u) = Some h)"
proof -
  from st hd have ch: "challenge rs = Some h" by (simp add: challenge_def)
  from i have moved: "posts w' \<noteq> posts w" by auto
  obtain r1 w1 where wc: "with_credentials ev w p = (r1, w1)"
    by (cases "with_credentials ev w p")
  note f = with_credentials_frame [OF wc]
  from run moved wc f obtain c where r1: "r1 = Inr c" and ra: "rxt_auth ev c w1 = (res, w')"
    by (auto simp: authenticate_def and_then_def
             split: sum.splits exc.splits bool.splits)
  from f i have i1: "length (posts w1) \<le> i" by simp
  from rxt_auth_challenge [OF ra i1 i(2) ans ch]
  have "res = Inr (AuthHandlerResponse False None)"
    and "sess_cache w' (hashed_auth_user c) = Some h" by simp_all
  with with_credentials_user [of ev w p c w1] wc r1 show ?thesis by auto
qed

theorem C4_mfa_challenge_witness:
  "fst (authenticate (demo_env challenge_upstream) empty_world pl_password)
     = Inr (AuthHandlerResponse False None)
   \<and> (\<exists>u. priv_username pl_password = Inr (JStr u)
          \<and> sess_cache (snd (authenticate (demo_env challenge_upstream) empty_world pl_password))
               (sha224 (demo_env challenge_upstream) u) = Some mfa_header)"
proof -
  let ?ev = "demo_env challenge_upstream"
  let ?run = "authenticate ?ev empty_world pl_password"
  have run: "?run = (fst ?run, snd ?run)" by simp
  have i0: "length (posts empty_world) \<le> 0" by (simp add: empty_world_def)
  have i1: "0 < length (posts (snd ?run))" by code_simp
  have ans: "upstream ?ev 0 (fst (posts (snd ?run) ! 0)) (snd (posts (snd ?run) ! 0))
               = Responded \<lparr>status_code = 401, www_authenticate = Some mfa_header, json_body = None\<rparr>"
    by (simp add: demo_env_def challenge_upstream_def respond_def)
  from C4_mfa_challenge [OF run i0 i1 ans] show ?thesis by simp
qed

subsection \<open>C5: the shortcut for a pending session\<close>

text \<open>
  C5 as stated: with no valid cached catalog, a cached SessionHeader and the password
  kind, the call returns the pending-MFA response without an exchange. It fails when
  the cached header holds no session id (the header of a plain 401): the password
  request is posted.
\<close>

theorem C5_counterexample:
  "sess_cache (world_with_header keystone_header) (sha224 (demo_env failing_upstream) ''alice'')
     = Some keystone_header
   \<and> srv_cache (world_with_header keystone_header)
       (sha224 (demo_env failing_upstream) (json_dumps (demo_env failing_upstream) pl_password))
     = None
   \<and> selected_kind (demo_env failing_upstream) (world_with_header keystone_header) pl_password
     = Inr ''passwordCredentials''
   \<and> map fst (posts (snd (authenticate (demo_env failing_upstream)
        (world_with_header keystone_header) pl_password)))
     = [password_body (JStr ''alice'') (JStr ''secret'')]
   \<and> fst (authenticate (demo_env failing_upstream) (world_with_header keystone_header)
        pl_password) = Inl (Unauthorized (AuthFailed ''passwordCredentials''))"
  by code_simp

text \<open>
  C5 as amended: when the cache block finds no valid catalog, a session id has been
  extracted from the cached SessionHeader, and the selected kind is password, the call
  returns the pending-MFA response at once and posts nothing.
\<close>

theorem C5_pending_shortcut:
  assumes dom: "getitem3 p ''user'' ''domain'' ''name'' = Inr (JStr ''rackspace_cloud_domain'')"
      and sel: "with_credentials ev w0 p = (Inr c, w)"
      and kind: "rxt_auth_payload c = Some (''passwordCredentials'', body)"
      and sess: "session_id c = Some s"
      and miss: "cached_catalog ev c w = (Inr False, w1)"
  shows "authenticate ev w0 p = (Inr (AuthHandlerResponse False None), w1)
       \<and> posts w1 = posts w0"
proof -
  from with_credentials_Inr [OF sel] sess have hs: "has_session c" by auto
  have "exchange ev c body ''passwordCredentials'' w1 = (Inr True, w1)"
    using hs by (intro exchange_shortcut) simp_all
  with miss have at: "priv_rxt_auth ev c body ''passwordCredentials'' w = (Inr True, w1)"
    by (simp add: priv_rxt_auth_def)
  from rxt_auth_last [OF kind _ at]
  have "rxt_auth ev c w = (Inr (AuthHandlerResponse False None), w1)"
    by (simp add: finish_pending)
  moreover from cached_catalog_frame [OF miss] with_credentials_frame [OF sel]
  have "posts w1 = posts w0" by simp
  ultimately show ?thesis
    using authenticate_rackspace [OF dom, of ev w0] sel by simp
qed

theorem C5_pending_shortcut_witness:
  "fst (authenticate (demo_env failing_upstream) (world_with_header mfa_header) pl_password)
     = Inr (AuthHandlerResponse False None)
   \<and> posts (snd (authenticate (demo_env failing_upstream) (world_with_header mfa_header)
        pl_password)) = posts (world_with_header mfa_header)"
proof -
  let ?ev = "demo_env failing_upstream"
  let ?wS = "world_with_header mfa_header"
  let ?body = "password_body (JStr ''alice'') (JStr ''secret'')"
  let ?c = "selected_creds pl_password (Some ''abc123'') (''passwordCredentials'', ?body)"
  let ?w = "snd (with_credentials ?ev ?wS pl_password)"
  have dom: "getitem3 pl_password ''user'' ''domain'' ''name'' = Inr (JStr ''rackspace_cloud_domain'')"
    by code_simp
  have "fst (with_credentials ?ev ?wS pl_password) = Inr ?c" by code_simp
  then have sel: "with_credentials ?ev ?wS pl_password = (Inr ?c, ?w)"
    by (simp add: prod_eq_iff)
  have kind: "rxt_auth_payload ?c = Some (''passwordCredentials'', ?body)"
    by (simp add: selected_creds_def)
  have sess: "session_id ?c = Some ''abc123''" by (simp add: selected_creds_def)
  have "fst (cached_catalog ?ev ?c ?w) = Inr False" by code_simp
  then have miss: "cached_catalog ?ev ?c ?w = (Inr False, snd (cached_catalog ?ev ?c ?w))"
    by (simp add: prod_eq_iff)
  from C5_pending_shortcut [OF dom sel kind sess miss] show ?thesis by simp
qed

subsection \<open>C6: the catalog translator\<close>




subsection \<open>C7: a second call is answered from the catalog cache\<close>

text \<open>
  C7: when a call of \<open>authenticate\<close> has succeeded, and the catalog it left in the cache
  under the digest of the payload has an expiry that parses and lies after the time the
  second call reads the clock, then a second call with the same payload, made while the
  two caches are as the first call left them, posts nothing: it is answered from the
  cached catalog, which it translates into the environment of its request. In the
  environment the first call left it returns the response of the first call.
\<close>

theorem C7_second_call_from_cache:
  assumes first: "authenticate ev w p = (Inr (AuthHandlerResponse True d), w1)"
      and sess2: "sess_cache w2 = sess_cache w1" and srv2: "srv_cache w2 = srv_cache w1"
      and cached: "srv_cache w1 (sha224 ev (json_dumps ev p)) = Some cat"
      and expires: "getitem3 cat ''access'' ''token'' ''expires'' = Inr (JStr s)"
      and parsed: "parse_time ev s = Some t"
      and fresh: "clock ev (ticks w2) < t"
  shows "posts (snd (authenticate ev w2 p)) = posts w2
       \<and> parse_service_catalog ev cat (environ w2) = Inr (environ (snd (authenticate ev w2 p)))
       \<and> (environ w2 = environ w1
            \<longrightarrow> fst (authenticate ev w2 p) = Inr (AuthHandlerResponse True d))"
proof -
  have dom: "and_then (getitem3 p ''user'' ''domain'' ''name'')
               (\<lambda>n. Inr (n = JStr ''rackspace_cloud_domain'')) = Inr True"
    using first
    by (auto simp: authenticate_def split: sum.splits exc.splits bool.splits)
  obtain r1 wa where wc: "with_credentials ev w p = (r1, wa)"
    by (cases "with_credentials ev w p")
  from first dom wc obtain c where r1: "r1 = Inr c"
    and ra: "rxt_auth ev c wa = (Inr (AuthHandlerResponse True d), w1)"
    by (auto simp: authenticate_def split: sum.splits)
  note fa = with_credentials_frame [OF wc]
  from with_credentials_user [of ev w p c wa] wc r1
  have key: "hashed_auth_payload c = sha224 ev (json_dumps ev p)" by auto
  from rxt_auth_success [OF ra] key cached obtain e0
    where sess: "sess_cache w1 = sess_cache wa"
      and tr: "parse_service_catalog ev cat e0 = Inr (environ w1)"
      and rh: "return_auth_handler ev c w1 = (Inr (AuthHandlerResponse True d), w1)"
    by auto
  \<comment> \<open>the second call selects the same credentials\<close>
  obtain r2 wb where wc2: "with_credentials ev w2 p = (r2, wb)"
    by (cases "with_credentials ev w2 p")
  from with_credentials_cong [of w2 w ev p] sess sess2 fa wc wc2 r1
  have r2: "r2 = Inr c" by simp
  note fb = with_credentials_frame [OF wc2]
  \<comment> \<open>and finds the catalog\<close>
  from parse_service_catalog_any_env [OF tr] obtain en2
    where tr2: "parse_service_catalog ev cat (environ w2) = Inr en2" by blast
  let ?wc = "wb\<lparr>ticks := Suc (ticks wb), environ := en2\<rparr>"
  have hit: "cached_catalog ev c wb = (Inr True, ?wc)"
  proof (rule cached_catalog_hitI)
    show "srv_cache wb (hashed_auth_payload c) = Some cat" using fb key cached srv2 by simp
    show "truthy cat" using tr by (rule parse_service_catalog_truthy)
    show "getitem3 cat ''access'' ''token'' ''expires'' = Inr (JStr s)" by (rule expires)
    show "parse_time ev s = Some t" by (rule parsed)
    show "clock ev (ticks wb) < t" using fb fresh by simp
    show "parse_service_catalog ev cat (environ wb) = Inr en2" using tr2 fb by simp
  qed
  have at: "priv_rxt_auth ev c body auth_type wb = (Inr False, ?wc)" for body auth_type
    using hit by (simp add: priv_rxt_auth_def)
  have run2: "rxt_auth ev c wb = return_auth_handler ev c ?wc"
  proof (cases "rxt_auth_payload c")
    case None
    from rxt_auth_None [OF None, of ev wa] ra show ?thesis by simp
  next
    case (Some cr)
    obtain auth_type body where cr: "rxt_auth_payload c = Some (auth_type, body)"
      using Some by (cases cr) simp
    from rxt_auth_unfold [OF cr at] show ?thesis by (simp add: finish_def)
  qed
  from dom wc2 r2 run2 have a2: "authenticate ev w2 p = return_auth_handler ev c ?wc"
    by (simp add: authenticate_def)
  obtain res wd where rh2: "return_auth_handler ev c ?wc = (res, wd)"
    by (cases "return_auth_handler ev c ?wc")
  from return_auth_handler_frame [OF rh2] have wd: "wd = ?wc" .
  have same: "res = Inr (AuthHandlerResponse True d)" if "environ w2 = environ w1"
  proof -
    from that tr2 parse_service_catalog_idem [OF tr] have "en2 = environ w1" by simp
    with return_auth_handler_det [OF rh, of c ?wc] rh2 show ?thesis by simp
  qed
  from a2 rh2 wd fb tr2 same show ?thesis by simp
qed

theorem C7_second_call_from_cache_witness:
  "posts (snd (authenticate (demo_env catalog_upstream)
      (world_after_alice\<lparr>environ := Map.empty\<rparr>) pl_passcode))
     = posts world_after_alice
   \<and> length (posts world_after_alice) = 1
   \<and> fst (authenticate (demo_env catalog_upstream) world_after_alice pl_passcode)
     = Inr (AuthHandlerResponse True (Some (returned_payload pl_passcode)))"
proof -
  let ?ev = "demo_env catalog_upstream"
  let ?d = "Some (returned_payload pl_passcode)"
  let ?cat = "demo_catalog ''2099-01-01T00:00:00Z'' demo_roles"
  let ?run = "authenticate ?ev (world_with_header mfa_header) pl_passcode"
  have "fst ?run = Inr (AuthHandlerResponse True ?d)" by code_simp
  then have first: "?run = (Inr (AuthHandlerResponse True ?d), world_after_alice)"
    by (simp add: prod_eq_iff world_after_alice_def)
  have cached: "srv_cache world_after_alice (sha224 ?ev (json_dumps ?ev pl_passcode)) = Some ?cat"
    by code_simp
  have expires: "getitem3 ?cat ''access'' ''token'' ''expires'' = Inr (JStr ''2099-01-01T00:00:00Z'')"
    by code_simp
  have parsed: "parse_time ?ev ''2099-01-01T00:00:00Z'' = Some 4070908800"
    by (simp add: demo_env_def demo_parse_time_def)
  have fresh: "clock ?ev n < 4070908800" for n
    by (simp add: demo_env_def)
  have n: "length (posts world_after_alice) = 1" by code_simp
  \<comment> \<open>in the environment of a new request\<close>
  from C7_second_call_from_cache
    [OF first _ _ cached expires parsed fresh, of "world_after_alice\<lparr>environ := Map.empty\<rparr>"]
  have a: "posts (snd (authenticate ?ev (world_after_alice\<lparr>environ := Map.empty\<rparr>) pl_passcode))
             = posts world_after_alice" by simp
  \<comment> \<open>in the environment the first call left\<close>
  from C7_second_call_from_cache
    [OF first _ _ cached expires parsed fresh, of world_after_alice]
  have b: "fst (authenticate ?ev world_after_alice pl_passcode)
             = Inr (AuthHandlerResponse True ?d)" by simp
  from a n b show ?thesis by blast
qed

text \<open>
  The payload is a value here. The dictionary the caller passed is another matter:
  \<open>return_auth_handler\<close> has added two keys to it, so the same object passed again is
  another payload with another digest, and that call posts a request of its own.
\<close>

lemma returned_payload_is_posted:
  "length (posts world_after_alice) = 1
   \<and> length (posts (snd (authenticate (demo_env catalog_upstream) world_after_alice
        (returned_payload pl_passcode)))) = 2"
  by code_simp

subsection \<open>C8: the missing-password failure\<close>

text \<open>
  C8 as stated: selection fails for a missing password only when no passcode is
  present. It fails for a payload with a passcode and no password when no session id
  is cached: the passcode branch is not taken and the password is read.
\<close>

theorem C8_counterexample:
  "priv_passcode pl_passcode_only = Inr (JStr ''123456'')
   \<and> getitem2 pl_passcode_only ''user'' ''password'' = Inl (KeyError ''password'')
   \<and> fst (with_credentials (demo_env no_upstream) empty_world pl_passcode_only)
       = Inl (Unauthorized MissingPassword)"
  by code_simp

text \<open>
  C8 as amended: for a payload the constructor accepts, selection fails with the
  missing-password error if and only if \<open>user.password\<close> is absent and the passcode
  branch is not taken, that is, the passcode is empty or absent or no session id is
  extracted from the cached SessionHeader.
\<close>

theorem C8_missing_password:
  assumes "init ev p = Inr c" and "priv_passcode p = Inr pc"
  shows "fst (with_credentials ev w p) = Inl (Unauthorized MissingPassword) \<longleftrightarrow>
           getitem2 p ''user'' ''password'' = Inl (KeyError ''password'') \<and>
           \<not> (truthy pc \<and> priv_sessionID w c \<noteq> None)"
proof -
  from init_Inr [OF assms(1)] obtain u where c: "auth_payload c = p" "rxt_auth_payload c = None"
    and u: "priv_username p = Inr (JStr u)" by blast
  from priv_username_shape [OF u] obtain kvs ukvs
    where shape: "p = JObj kvs" "map_of kvs ''user'' = Some (JObj ukvs)" by blast
  have wc: "with_credentials ev w p = enter c w"
    using assms(1) by (simp add: with_credentials_def)
  have pw: "priv_password p = (case map_of ukvs ''password'' of None \<Rightarrow> Inl (Unauthorized MissingPassword) | Some v \<Rightarrow> Inr v)"
    by (rule priv_password_dict [OF shape])
  have g2: "getitem2 p ''user'' ''password'' = (case map_of ukvs ''password'' of None \<Rightarrow> Inl (KeyError ''password'') | Some v \<Rightarrow> Inr v)"
    using shape by (simp add: getitem2_def split: option.splits)
  show ?thesis
  proof (cases "truthy pc \<and> priv_sessionID w c \<noteq> None")
    case True
    then obtain s where "truthy pc" "priv_sessionID w c = Some s" by auto
    from enter_passcode [of c pc w s] this assms(2) c True show ?thesis
      by (simp add: wc)
  next
    case False
    from enter_no_passcode [of c pc w] False assms(2) c u pw g2 show ?thesis
      by (auto simp: wc split: option.splits json.splits)
  qed
qed

theorem C8_missing_password_witness:
  "fst (with_credentials (demo_env no_upstream) empty_world pl_passcode_only)
     = Inl (Unauthorized MissingPassword)
   \<and> fst (with_credentials (demo_env no_upstream) (world_with_header mfa_header) pl_passcode_only)
     \<noteq> Inl (Unauthorized MissingPassword)"
proof -
  let ?ev = "demo_env no_upstream"
  have i: "init ?ev pl_passcode_only = Inr (demo_creds pl_passcode_only)" by code_simp
  have p: "priv_passcode pl_passcode_only = Inr (JStr ''123456'')" by code_simp
  have g: "getitem2 pl_passcode_only ''user'' ''password'' = Inl (KeyError ''password'')"
    by code_simp
  have s0: "priv_sessionID empty_world (demo_creds pl_passcode_only) = None" by code_simp
  have s1: "priv_sessionID (world_with_header mfa_header) (demo_creds pl_passcode_only)
              = Some ''abc123''" by code_simp
  from C8_missing_password [OF i p, of empty_world] g s0
  have a: "fst (with_credentials ?ev empty_world pl_passcode_only)
             = Inl (Unauthorized MissingPassword)" by simp
  from C8_missing_password [OF i p, of "world_with_header mfa_header"] s1
  have b: "fst (with_credentials ?ev (world_with_header mfa_header) pl_passcode_only)
             \<noteq> Inl (Unauthorized MissingPassword)" by simp
  from a b show ?thesis by blast
qed

subsection \<open>C9: what a failing call surfaces\<close>




subsection \<open>C10: the headers shared between calls\<close>

text \<open>
  C10: \<open>rxt_headers\<close> is one dictionary for all calls, and an \<open>X-SessionId\<close> entry, once
  written by a passcode authentication, is never removed by a later call. So the
  headers of a request depend on earlier calls: after alice has authenticated with her
  passcode, bob's request carries her session id, and from a world that differs in the
  shared headers only the same call sends none.
\<close>

theorem C10_shared_headers:
  "(\<forall>ev w p. rxt_headers w ''X-SessionId'' \<noteq> None
       \<longrightarrow> rxt_headers (snd (authenticate ev w p)) ''X-SessionId'' \<noteq> None)
   \<and> rxt_headers world_after_alice ''X-SessionId'' = Some ''abc123''
   \<and> map (\<lambda>req. snd req ''X-SessionId'')
        (posts (snd (authenticate (demo_env failing_upstream) world_after_alice pl_bob)))
      = [Some ''abc123'', Some ''abc123'']
   \<and> map (\<lambda>req. snd req ''X-SessionId'')
        (posts (snd (authenticate (demo_env failing_upstream)
           (world_after_alice\<lparr>rxt_headers := Map.empty\<rparr>) pl_bob)))
      = [Some ''abc123'', None]"
proof -
  have keep: "rxt_headers (snd (authenticate ev w p)) ''X-SessionId'' \<noteq> None"
    if "rxt_headers w ''X-SessionId'' \<noteq> None" for ev w p
  proof -
    obtain r1 w1 where wc: "with_credentials ev w p = (r1, w1)"
      by (cases "with_credentials ev w p")
    from with_credentials_frame [OF wc] that
    have h1: "rxt_headers w1 ''X-SessionId'' \<noteq> None" by simp
    have "rxt_headers (snd (authenticate ev w p)) = rxt_headers w
        \<or> rxt_headers (snd (authenticate ev w p)) = rxt_headers w1"
    proof (cases r1)
      case (Inl e)
      with wc show ?thesis
        by (auto simp: authenticate_def and_then_def split: sum.splits exc.splits bool.splits)
    next
      case (Inr c)
      obtain res w' where ra: "rxt_auth ev c w1 = (res, w')" by (cases "rxt_auth ev c w1")
      from rxt_auth_headers [OF ra] ra Inr wc show ?thesis
        by (auto simp: authenticate_def and_then_def split: sum.splits exc.splits bool.splits)
    qed
    with that h1 show ?thesis by auto
  qed
  have a: "rxt_headers world_after_alice ''X-SessionId'' = Some ''abc123''" by code_simp
  have b: "map (\<lambda>req. snd req ''X-SessionId'')
        (posts (snd (authenticate (demo_env failing_upstream) world_after_alice pl_bob)))
      = [Some ''abc123'', Some ''abc123'']" by code_simp
  have c: "map (\<lambda>req. snd req ''X-SessionId'')
        (posts (snd (authenticate (demo_env failing_upstream)
           (world_after_alice\<lparr>rxt_headers := Map.empty\<rparr>) pl_bob)))
      = [Some ''abc123'', None]" by code_simp
  from keep a b c show ?thesis by blast
qed

theorem C10_shared_headers_witness:
  "rxt_headers (snd (authenticate (demo_env failing_upstream) world_after_alice pl_bob))
     ''X-SessionId'' \<noteq> None"
proof -
  have "rxt_headers world_after_alice ''X-SessionId'' \<noteq> None" by code_simp
  with C10_shared_headers show ?thesis by blast
qed

end
